theory Spec2Isabelle
  imports Complex_Main "HOL-Library.Char_ord" "HOL-Library.List_Lexorder"
    "HOL-Library.Log_Nat"
begin

section \<open>Python values, dictionaries and exceptions\<close>

text \<open>
  The program in \<^verbatim>\<open>fastapi_back/main.py\<close> keeps all of its data in dynamically typed
  dictionaries and lists. A value is a \<open>pyval\<close>. A Python \<^verbatim>\<open>float\<close> is the rational number that
  the double denotes, and every operation on floats that the program performs rounds its exact
  result to the nearest double (\<open>nearest_double\<close> below); the infinities and NaN have no
  counterpart. A \<^verbatim>\<open>str\<close> is a \<open>string\<close>, compared lexicographically as Python does. A
  \<^verbatim>\<open>dict\<close> is an association list in insertion order with distinct keys.
\<close>

datatype pyval =
    PyNone
  | PyStr string
  | PyInt int
  | PyFloat rat
  | PyList "pyval list"
  | PyDict "(string \<times> pyval) list"

type_synonym pydict = "(string \<times> pyval) list"

text \<open>An exception that leaves an endpoint: the \<^verbatim>\<open>HTTPException\<close>s raised by the source with
  their status code and detail, the built-in errors that dictionary and operator use can
  raise, and the errors of \<^verbatim>\<open>passlib\<close>, which the source does not catch.\<close>

datatype exc =
    HTTPException nat string
  | TypeError
  | KeyError
  | OverflowError
  | PasswordValueError
  | UnknownHashError

text \<open>\<^verbatim>\<open>k in d\<close>, \<^verbatim>\<open>d.get(k)\<close> and \<^verbatim>\<open>d[k] = v\<close>. Assigning an existing key replaces the
  value in place, assigning a new key appends it.\<close>

definition dict_in :: "'k \<Rightarrow> ('k \<times> 'v) list \<Rightarrow> bool" where
  "dict_in k d = (map_of d k \<noteq> None)"

definition dict_get :: "pydict \<Rightarrow> string \<Rightarrow> pyval" where
  "dict_get d k = (case map_of d k of None \<Rightarrow> PyNone | Some v \<Rightarrow> v)"

fun dict_set :: "('k \<times> 'v) list \<Rightarrow> 'k \<Rightarrow> 'v \<Rightarrow> ('k \<times> 'v) list" where
  "dict_set [] k v = [(k, v)]"
| "dict_set ((k', v') # d) k v =
     (if k' = k then (k, v) # d else (k', v') # dict_set d k v)"

text \<open>Truth value of a Python object, as \<^verbatim>\<open>if x\<close> and \<^verbatim>\<open>x and y\<close> test it.\<close>

fun truthy :: "pyval \<Rightarrow> bool" where
  "truthy PyNone = False"
| "truthy (PyStr s) = (s \<noteq> [])"
| "truthy (PyInt i) = (i \<noteq> 0)"
| "truthy (PyFloat x) = (x \<noteq> 0)"
| "truthy (PyList xs) = (xs \<noteq> [])"
| "truthy (PyDict d) = (d \<noteq> [])"

section \<open>Decimal rendering of integers\<close>

text \<open>\<^verbatim>\<open>str(n)\<close> and the \<^verbatim>\<open>{}\<close> of an f-string on an integer.\<close>

fun str_nat :: "nat \<Rightarrow> string" where
  "str_nat n =
     (if n < 10 then [char_of (48 + n)]
      else str_nat (n div 10) @ [char_of (48 + n mod 10)])"

declare str_nat.simps [simp del]

definition str_int :: "int \<Rightarrow> string" where
  "str_int i = (if i < 0 then CHR ''-'' # str_nat (nat (- i)) else str_nat (nat i))"

text \<open>Zero padding of the \<^verbatim>\<open>%02d\<close> and \<^verbatim>\<open>%04d\<close> formats used by \<^verbatim>\<open>isoformat\<close>.\<close>

definition zfill :: "nat \<Rightarrow> string \<Rightarrow> string" where
  "zfill w s = replicate (w - length s) (CHR ''0'') @ s"

section \<open>The standard library: \<^verbatim>\<open>datetime\<close> and \<^verbatim>\<open>random\<close>\<close>

text \<open>
  A \<^verbatim>\<open>datetime\<close> is its number of microseconds since 2025-01-01T00:00:00, the earliest
  instant the program builds; a \<^verbatim>\<open>timedelta\<close> is a number of microseconds.
\<close>

type_synonym datetime = nat
type_synonym timedelta = nat

definition day_us :: nat where
  "day_us = 86400 * 1000000"

definition is_leap :: "nat \<Rightarrow> bool" where
  "is_leap y = (y mod 4 = 0 \<and> (y mod 100 \<noteq> 0 \<or> y mod 400 = 0))"

definition days_in_year :: "nat \<Rightarrow> nat" where
  "days_in_year y = (if is_leap y then 366 else 365)"

definition month_lengths :: "nat \<Rightarrow> nat list" where
  "month_lengths y =
     [31, if is_leap y then 29 else 28, 31, 30, 31, 30, 31, 31, 30, 31, 30, 31]"

text \<open>\<^verbatim>\<open>datetime.datetime(y, m, d)\<close>, midnight of a day of 2025 or later.\<close>

definition datetime_ymd :: "nat \<Rightarrow> nat \<Rightarrow> nat \<Rightarrow> datetime" where
  "datetime_ymd y m d =
     (sum_list (map days_in_year [2025..<y])
        + sum_list (take (m - 1) (month_lengths y)) + (d - 1)) * day_us"

text \<open>\<^verbatim>\<open>timedelta(minutes=k)\<close>.\<close>

definition timedelta_minutes :: "int \<Rightarrow> timedelta" where
  "timedelta_minutes k = nat k * 60 * 1000000"

text \<open>The rounding of \<^verbatim>\<open>datetime._divide_and_round\<close>: nearest integer to \<open>a / b\<close>, ties to
  even.\<close>

definition divide_and_round :: "int \<Rightarrow> int \<Rightarrow> int" where
  "divide_and_round a b =
     (let q = a div b; r = 2 * (a mod b);
          greater_than_half = (if b > 0 then r > b else r < b)
      in if greater_than_half \<or> (r = b \<and> q mod 2 = 1) then q + 1 else q)"

text \<open>\<^verbatim>\<open>timedelta * float\<close>: the float's exact integer ratio, then \<open>divide_and_round\<close>.\<close>

definition timedelta_mul :: "timedelta \<Rightarrow> rat \<Rightarrow> timedelta" where
  "timedelta_mul td x =
     (case quotient_of x of (a, b) \<Rightarrow> nat (divide_and_round (int td * a) b))"

text \<open>
  Double precision. A non-zero double is \<open>m * 2 ^ q\<close> with an integer \<open>m\<close> of 53 bits,
  \<open>2 ^ 52 \<le> \<bar>m\<bar> < 2 ^ 53\<close>. \<open>float_exponent x\<close> is the binary exponent of a non-zero
  rational, the \<open>e\<close> with \<open>2 ^ e \<le> \<bar>x\<bar> < 2 ^ (e + 1)\<close>, found from the bit lengths of
  numerator and denominator; \<open>nearest_double x\<close> is the double nearest to \<open>x\<close>, ties to the
  even significand, which is the result that IEEE 754 arithmetic in the default rounding
  mode gives to an operation whose exact result is \<open>x\<close>. The exponent is not bounded here:
  the values that the program computes are far from the overflow and underflow thresholds.
\<close>

definition float_exponent :: "rat \<Rightarrow> int" where
  "float_exponent x =
     (case quotient_of x of (a, b) \<Rightarrow>
        let d = bitlen \<bar>a\<bar> - bitlen b;
            ge = (if 0 \<le> d then b * 2 ^ nat d \<le> \<bar>a\<bar> else b \<le> \<bar>a\<bar> * 2 ^ nat (- d))
        in if ge then d else d - 1)"

definition nearest_double :: "rat \<Rightarrow> rat" where
  "nearest_double x =
     (if x = 0 then 0
      else case quotient_of x of (a, b) \<Rightarrow>
        let q = float_exponent x - 52
        in if 0 \<le> q then of_int (divide_and_round a (b * 2 ^ nat q)) * 2 ^ nat q
           else of_int (divide_and_round (a * 2 ^ nat (- q)) b) / 2 ^ nat (- q))"

text \<open>\<^verbatim>\<open>round(x, ndigits)\<close> on a float: the exact value of \<open>x\<close> is rounded to the nearest
  multiple of \<open>10 ^ -ndigits\<close>, ties to even, and the result is the double nearest to that
  decimal.\<close>

definition round_ndigits :: "rat \<Rightarrow> nat \<Rightarrow> rat" where
  "round_ndigits x nd =
     (case quotient_of (x * 10 ^ nd) of (a, b) \<Rightarrow>
        nearest_double (of_int (divide_and_round a b) / 10 ^ nd))"

text \<open>\<^verbatim>\<open>dt.replace(microsecond=0)\<close>.\<close>

definition replace_microsecond0 :: "datetime \<Rightarrow> datetime" where
  "replace_microsecond0 t = t - t mod 1000000"

function year_of :: "nat \<Rightarrow> nat \<Rightarrow> nat \<times> nat" where
  "year_of y d =
     (if d < days_in_year y then (y, d) else year_of (Suc y) (d - days_in_year y))"
  by pat_completeness auto
termination
  by (relation "measure (\<lambda>(y, d). d)") (auto simp: days_in_year_def)

declare year_of.simps [simp del]

fun month_day :: "nat list \<Rightarrow> nat \<Rightarrow> nat \<Rightarrow> nat \<times> nat" where
  "month_day [] m d = (m, d + 1)"
| "month_day (l # ls) m d = (if d < l then (m, d + 1) else month_day ls (m + 1) (d - l))"

text \<open>\<^verbatim>\<open>dt.isoformat()\<close>: \<^verbatim>\<open>YYYY-MM-DDTHH:MM:SS\<close>, followed by \<^verbatim>\<open>.ffffff\<close> when the
  microsecond is not zero.\<close>

definition isoformat :: "datetime \<Rightarrow> string" where
  "isoformat t =
     (case year_of 2025 (t div day_us) of (y, doy) \<Rightarrow>
      case month_day (month_lengths y) 1 doy of (m, d) \<Rightarrow>
      let secs = (t mod day_us) div 1000000; us = t mod 1000000;
          s = zfill 4 (str_nat y) @ ''-'' @ zfill 2 (str_nat m) @ ''-'' @ zfill 2 (str_nat d)
              @ ''T'' @ zfill 2 (str_nat (secs div 3600)) @ '':''
              @ zfill 2 (str_nat (secs div 60 mod 60)) @ '':''
              @ zfill 2 (str_nat (secs mod 60))
      in if us = 0 then s else s @ ''.'' @ zfill 6 (str_nat us))"

text \<open>
  The random source. Each call of the \<^verbatim>\<open>random\<close> module consumes raw entropy, a natural
  number here, and every outcome the call can have is the image of some entropy:
  \<^verbatim>\<open>random()\<close> is a 53-bit integer over \<open>2 ^ 53\<close>, \<^verbatim>\<open>choice(seq)\<close> an element at an index
  below the length, \<^verbatim>\<open>randint(a, b)\<close> an integer of \<open>a..b\<close>, and \<^verbatim>\<open>uniform(a, b)\<close> is
  \<^verbatim>\<open>a + (b - a) * random()\<close>, three operations on floats, each rounded.
\<close>

definition random :: "nat \<Rightarrow> rat" where
  "random r = of_nat (r mod 2 ^ 53) / 2 ^ 53"

definition choice :: "'a list \<Rightarrow> nat \<Rightarrow> 'a" where
  "choice seq r = seq ! (r mod length seq)"

definition randint :: "int \<Rightarrow> int \<Rightarrow> nat \<Rightarrow> int" where
  "randint a b r = a + int (r mod nat (b - a + 1))"

definition uniform :: "rat \<Rightarrow> rat \<Rightarrow> nat \<Rightarrow> rat" where
  "uniform a b r = nearest_double (a + nearest_double (nearest_double (b - a) * random r))"

text \<open>The entropy of the seven random calls of one iteration of the simulation loop, in the
  order of the source.\<close>

record draws =
  r_start :: nat
  r_status :: nat
  r_sensor :: nat
  r_lat :: nat
  r_lon :: nat
  r_progress :: nat
  r_minutes :: nat

section \<open>The in-memory databases\<close>

record state =
  missions_db :: "(string \<times> pydict) list"
  data_db :: "pydict list"
  simulations_db :: "pydict list"
  users_db :: "(string \<times> pydict) list"

definition init_state :: state where
  "init_state = \<lparr>missions_db = [], data_db = [], simulations_db = [], users_db = []\<rparr>"

section \<open>Mission simulation\<close>

definition mission_types :: "string list" where
  "mission_types = [''thermal'', ''multispectral'', ''lidar'']"

text \<open>The body of the loop of \<^verbatim>\<open>simulate_missions\<close> up to the store: the mission built when
  \<open>missions_db\<close> holds \<open>n\<close> entries.\<close>

definition new_mission :: "nat \<Rightarrow> draws \<Rightarrow> pydict" where
  "new_mission n rnd =
     (let next_id = int n + 1;
          mission_id = ''M'' @ str_int (1000 + next_id);
          start_time_dt = datetime_ymd 2025 1 1
            + timedelta_mul (datetime_ymd 2025 12 31 - datetime_ymd 2025 1 1)
                (random (r_start rnd));
          start_time = isoformat (replace_microsecond0 start_time_dt) @ ''Z'';
          status = choice [''pending'', ''processing'', ''completed''] (r_status rnd);
          sensor_type = choice mission_types (r_sensor rnd);
          gps_lat = round_ndigits (uniform 4 6 (r_lat rnd)) 6;
          gps_lon = round_ndigits (uniform (- 75.5) (- 73.5) (r_lon rnd)) 6;
          mission =
            [(''mission_id'', PyStr mission_id),
             (''sensor_type'', PyStr sensor_type),
             (''type'', PyStr sensor_type),
             (''timestamp'', PyStr start_time),
             (''start_time'', PyStr start_time),
             (''gps_lat'', PyFloat gps_lat),
             (''gps_lon'', PyFloat gps_lon),
             (''status'', PyStr status),
             (''progress'', PyInt (randint 0 100 (r_progress rnd)))]
      in if status = ''completed''
         then let end_time_dt =
                    start_time_dt + timedelta_minutes (randint 1 180 (r_minutes rnd))
              in dict_set mission ''end_time''
                   (PyStr (isoformat (replace_microsecond0 end_time_dt) @ ''Z''))
         else mission)"

text \<open>The loop \<^verbatim>\<open>for _ in range(num)\<close>: \<open>k\<close> iterations remain, \<open>i\<close> have run, \<open>rnd i\<close> is
  the entropy of iteration \<open>i\<close>. The key of the store is read back from the mission just
  built.\<close>

fun simulate_loop ::
  "nat \<Rightarrow> (nat \<Rightarrow> draws) \<Rightarrow> nat \<Rightarrow> (string \<times> pydict) list \<Rightarrow> pydict list
     \<Rightarrow> (string \<times> pydict) list \<times> pydict list" where
  "simulate_loop 0 rnd i db created = (db, created)"
| "simulate_loop (Suc k) rnd i db created =
     (let mission = new_mission (length db) (rnd i);
          mission_id = ''M'' @ str_int (1000 + (int (length db) + 1))
      in simulate_loop k rnd (Suc i) (dict_set db mission_id mission) (created @ [mission]))"

text \<open>\<^verbatim>\<open>simulate_missions(num, user)\<close>. \<open>now\<close> is \<^verbatim>\<open>datetime.utcnow().isoformat()\<close>, the
  reading of the clock. \<^verbatim>\<open>range(num)\<close> is empty for \<open>num \<le> 0\<close>.\<close>

definition simulate_missions ::
  "int \<Rightarrow> pydict \<Rightarrow> (nat \<Rightarrow> draws) \<Rightarrow> string \<Rightarrow> state \<Rightarrow> pydict \<times> state" where
  "simulate_missions num user rnd now st =
     (case simulate_loop (nat num) rnd 0 (missions_db st) [] of (db, created_missions) \<Rightarrow>
      let simulation_result =
            [(''simulation_id'', PyInt (int (length (simulations_db st)) + 1)),
             (''missions_generated'', PyInt num),
             (''timestamp'', PyStr (now @ ''Z'')),
             (''missions'', PyList (map PyDict created_missions))]
      in (simulation_result,
          st\<lparr>missions_db := db,
             simulations_db := simulations_db st @ [simulation_result]\<rparr>))"

section \<open>Security: password hashing and tokens\<close>

definition SECRET_KEY :: string where
  "SECRET_KEY = ''SUPER_SECRET_KEY_123''"

definition ALGORITHM :: string where
  "ALGORITHM = ''HS256''"

text \<open>
  The libraries \<^verbatim>\<open>passlib\<close> and \<^verbatim>\<open>jose\<close> are not part of the program; what the program
  calls of them is a parameter. \<open>pwd_hash\<close> is \<^verbatim>\<open>pwd_context.hash\<close> with the salt it draws
  made explicit, \<open>pwd_verify\<close> is \<^verbatim>\<open>pwd_context.verify\<close>. Both can raise, and the program
  catches nothing of what they raise; when it returns, \<open>pwd_verify\<close> returns a truth value
  that nothing here relates to the equality of passwords. A token of \<^verbatim>\<open>jwt.encode\<close> is the
  compact serialisation: the encoded header, the encoded claims and the encoded signature of
  the two, joined by dots. \<open>jwt_decode\<close> is \<^verbatim>\<open>jwt.decode\<close>, with \<open>None\<close> where it raises
  \<^verbatim>\<open>JWTError\<close>.
\<close>

record libs =
  pwd_hash :: "string \<Rightarrow> nat \<Rightarrow> exc + string"
  pwd_verify :: "string \<Rightarrow> string \<Rightarrow> exc + bool"
  jws_header :: "string \<Rightarrow> string"
  jws_claims :: "pydict \<Rightarrow> string"
  jws_signature :: "string \<Rightarrow> string \<Rightarrow> string \<Rightarrow> string"
  jwt_decode :: "string \<Rightarrow> string \<Rightarrow> string list \<Rightarrow> pydict option"

definition jwt_encode :: "libs \<Rightarrow> pydict \<Rightarrow> string \<Rightarrow> string \<Rightarrow> string" where
  "jwt_encode L claims key algorithm =
     (let signing_input = jws_header L algorithm @ ''.'' @ jws_claims L claims
      in signing_input @ ''.'' @ jws_signature L key algorithm signing_input)"

definition hash_password :: "libs \<Rightarrow> string \<Rightarrow> nat \<Rightarrow> exc + string" where
  "hash_password L password salt = pwd_hash L password salt"

definition verify_password :: "libs \<Rightarrow> string \<Rightarrow> string \<Rightarrow> exc + bool" where
  "verify_password L password hashed = pwd_verify L password hashed"

definition create_jwt :: "libs \<Rightarrow> pydict \<Rightarrow> string" where
  "create_jwt L data = jwt_encode L data SECRET_KEY ALGORITHM"

definition decode_jwt :: "libs \<Rightarrow> string \<Rightarrow> pydict option" where
  "decode_jwt L token = jwt_decode L token SECRET_KEY [ALGORITHM]"

text \<open>
  \<^verbatim>\<open>get_current_user(token)\<close>. The keys of \<open>users_db\<close> are strings, so a subject that is
  absent (\<^verbatim>\<open>None\<close>) or a number is not a key of it; a list or a dictionary is unhashable and
  the membership test raises \<^verbatim>\<open>TypeError\<close>.
\<close>

definition get_current_user :: "libs \<Rightarrow> string \<Rightarrow> state \<Rightarrow> exc + pydict" where
  "get_current_user L token st =
     (case decode_jwt L token of
        None \<Rightarrow> Inl (HTTPException 401 ''Invalid or expired token'')
      | Some payload \<Rightarrow>
          (case dict_get payload ''sub'' of
             PyStr email \<Rightarrow>
               (case map_of (users_db st) email of
                  None \<Rightarrow> Inl (HTTPException 404 ''User not found'')
                | Some user \<Rightarrow> Inr user)
           | PyList xs \<Rightarrow> Inl TypeError
           | PyDict d \<Rightarrow> Inl TypeError
           | _ \<Rightarrow> Inl (HTTPException 404 ''User not found'')))"

section \<open>Signup and login\<close>

text \<open>\<^verbatim>\<open>signup(user)\<close>, with the four fields of the validated \<^verbatim>\<open>UserSignup\<close> body. The
  record is built, and the password hashed, before the assignment to \<open>users_db\<close>: an
  exception of the hashing leaves the table as it was.\<close>

definition signup ::
  "libs \<Rightarrow> string \<Rightarrow> string \<Rightarrow> string \<Rightarrow> string \<Rightarrow> nat \<Rightarrow> state
     \<Rightarrow> (exc + pydict) \<times> state" where
  "signup L first_name last_name email password salt st =
     (if dict_in email (users_db st)
      then (Inl (HTTPException 400 ''Email already registered''), st)
      else (case hash_password L password salt of
              Inl e \<Rightarrow> (Inl e, st)
            | Inr hashed \<Rightarrow>
                (Inr [(''status'', PyStr ''success''),
                      (''message'', PyStr ''User registered successfully'')],
                 st\<lparr>users_db := dict_set (users_db st) email
                      [(''first_name'', PyStr first_name),
                       (''last_name'', PyStr last_name),
                       (''email'', PyStr email),
                       (''password'', PyStr hashed)]\<rparr>)))"

text \<open>\<^verbatim>\<open>login(credentials)\<close>. \<^verbatim>\<open>not user\<close> holds of \<^verbatim>\<open>None\<close> and of an empty dictionary;
  \<^verbatim>\<open>user["password"]\<close> raises \<^verbatim>\<open>KeyError\<close> on a record without the key, and the verifier
  raises \<^verbatim>\<open>TypeError\<close> on a hash that is not a string. What the verifier raises on a
  string leaves \<^verbatim>\<open>login\<close> as it is.\<close>

definition login :: "libs \<Rightarrow> string \<Rightarrow> string \<Rightarrow> state \<Rightarrow> exc + pydict" where
  "login L email password st =
     (case map_of (users_db st) email of
        None \<Rightarrow> Inl (HTTPException 404 ''User not found'')
      | Some user \<Rightarrow>
          if user = [] then Inl (HTTPException 404 ''User not found'')
          else (case map_of user ''password'' of
                  None \<Rightarrow> Inl KeyError
                | Some (PyStr hashed) \<Rightarrow>
                    (case verify_password L password hashed of
                       Inl e \<Rightarrow> Inl e
                     | Inr verified \<Rightarrow>
                         if \<not> verified
                         then Inl (HTTPException 401 ''Incorrect password'')
                         else let token = create_jwt L [(''sub'', PyStr email)]
                              in Inr [(''status'', PyStr ''success''),
                                      (''access_token'', PyStr token),
                                      (''token_type'', PyStr ''Bearer'')])
                | Some _ \<Rightarrow> Inl TypeError))"

definition get_me :: "pydict \<Rightarrow> exc + pydict" where
  "get_me user =
     (case (map_of user ''email'', map_of user ''first_name'', map_of user ''last_name'') of
        (Some e, Some f, Some l) \<Rightarrow>
          Inr [(''email'', e), (''first_name'', f), (''last_name'', l)]
      | _ \<Rightarrow> Inl KeyError)"

section \<open>Upload, mission status and query\<close>

text \<open>The validated \<^verbatim>\<open>UploadData\<close> body and its \<^verbatim>\<open>.dict()\<close>.\<close>

record UploadData =
  up_mission_id :: string
  up_timestamp :: string
  up_gps_lat :: rat
  up_gps_lon :: rat
  up_gps_alt :: "rat option"
  up_sensor_type :: string
  up_data_url :: "string option"

definition opt_str :: "string option \<Rightarrow> pyval" where
  "opt_str x = (case x of None \<Rightarrow> PyNone | Some s \<Rightarrow> PyStr s)"

definition opt_float :: "rat option \<Rightarrow> pyval" where
  "opt_float x = (case x of None \<Rightarrow> PyNone | Some s \<Rightarrow> PyFloat s)"

definition UploadData_dict :: "UploadData \<Rightarrow> pydict" where
  "UploadData_dict data =
     [(''mission_id'', PyStr (up_mission_id data)),
      (''timestamp'', PyStr (up_timestamp data)),
      (''gps_lat'', PyFloat (up_gps_lat data)),
      (''gps_lon'', PyFloat (up_gps_lon data)),
      (''gps_alt'', opt_float (up_gps_alt data)),
      (''sensor_type'', PyStr (up_sensor_type data)),
      (''data_url'', opt_str (up_data_url data))]"

definition upload_data :: "UploadData \<Rightarrow> pydict \<Rightarrow> state \<Rightarrow> pydict \<times> state" where
  "upload_data data user st =
     ([(''status'', PyStr ''success''),
       (''message'', PyStr ''Data received successfully''),
       (''received'', PyDict (UploadData_dict data))],
      st\<lparr>data_db := data_db st @ [UploadData_dict data]\<rparr>)"

definition get_mission_status :: "string \<Rightarrow> pydict \<Rightarrow> state \<Rightarrow> exc + pydict" where
  "get_mission_status mission_id user st =
     (case map_of (missions_db st) mission_id of
        None \<Rightarrow>
          Inl (HTTPException 404
                 (''Mission '' @ [CHR 0x27] @ mission_id @ [CHR 0x27] @ '' not found''))
      | Some mission \<Rightarrow> Inr mission)"

text \<open>A list comprehension \<^verbatim>\<open>[r for r in results if c(r)]\<close> whose condition can raise: the
  first exception ends it.\<close>

fun comprehension :: "('a \<Rightarrow> exc + bool) \<Rightarrow> 'a list \<Rightarrow> exc + 'a list" where
  "comprehension c [] = Inr []"
| "comprehension c (r # rs) =
     (case c r of
        Inl e \<Rightarrow> Inl e
      | Inr b \<Rightarrow>
          (case comprehension c rs of
             Inl e \<Rightarrow> Inl e
           | Inr ys \<Rightarrow> Inr (if b then r # ys else ys)))"

text \<open>\<^verbatim>\<open>r.get("timestamp") and r["timestamp"] >= start_date\<close>: ordering a string against
  anything but a string raises \<^verbatim>\<open>TypeError\<close>.\<close>

definition date_cond :: "string \<Rightarrow> pydict \<Rightarrow> exc + bool" where
  "date_cond start_date r =
     (let v = dict_get r ''timestamp''
      in if \<not> truthy v then Inr False
         else (case v of PyStr ts \<Rightarrow> Inr (start_date \<le> ts) | _ \<Rightarrow> Inl TypeError))"

text \<open>\<^verbatim>\<open>r.get("sensor_type") == sensor_type\<close>.\<close>

definition sensor_cond :: "string \<Rightarrow> pydict \<Rightarrow> exc + bool" where
  "sensor_cond sensor_type r = Inr (dict_get r ''sensor_type'' = PyStr sensor_type)"

text \<open>The subtraction of two floats, and the conversion of an \<^verbatim>\<open>int\<close> operand of a float
  operation, which raises \<^verbatim>\<open>OverflowError\<close> when the integer rounds to \<open>2 ^ 1024\<close> or
  beyond.\<close>

definition float_sub :: "rat \<Rightarrow> rat \<Rightarrow> rat" where
  "float_sub y x = nearest_double (y - x)"

definition int_to_float :: "int \<Rightarrow> exc + rat" where
  "int_to_float i =
     (if \<bar>nearest_double (of_int i)\<bar> < 2 ^ 1024 then Inr (nearest_double (of_int i))
      else Inl OverflowError)"

text \<open>\<^verbatim>\<open>key in r and abs(r[key] - x) <= tolerance\<close>, for \<^verbatim>\<open>gps_lat\<close> and \<^verbatim>\<open>gps_lon\<close>. The
  literal \<^verbatim>\<open>0.001\<close> is the double nearest to one thousandth, the difference is a float
  subtraction, and \<^verbatim>\<open>abs\<close> and \<^verbatim>\<open><=\<close> are exact.\<close>

definition gps_cond :: "string \<Rightarrow> rat \<Rightarrow> pydict \<Rightarrow> exc + bool" where
  "gps_cond key x r =
     (let tolerance = nearest_double 0.001
      in case map_of r key of
           None \<Rightarrow> Inr False
         | Some (PyFloat y) \<Rightarrow> Inr (\<bar>float_sub y x\<bar> \<le> tolerance)
         | Some (PyInt i) \<Rightarrow>
             (case int_to_float i of
                Inl e \<Rightarrow> Inl e
              | Inr y \<Rightarrow> Inr (\<bar>float_sub y x\<bar> \<le> tolerance))
         | Some _ \<Rightarrow> Inl TypeError)"

definition exc_bind :: "exc + 'a \<Rightarrow> ('a \<Rightarrow> exc + 'b) \<Rightarrow> exc + 'b" where
  "exc_bind x f = (case x of Inl e \<Rightarrow> Inl e | Inr a \<Rightarrow> f a)"

text \<open>The four filter blocks of \<^verbatim>\<open>query_data\<close>, each guarded by its \<^verbatim>\<open>if\<close>: an empty string
  is false as \<^verbatim>\<open>None\<close> is, while the coordinates are tested with \<^verbatim>\<open>is not None\<close>.\<close>

definition filter_start_date :: "string option \<Rightarrow> pydict list \<Rightarrow> exc + pydict list" where
  "filter_start_date start_date results =
     (case start_date of
        Some sd \<Rightarrow> if sd \<noteq> [] then comprehension (date_cond sd) results else Inr results
      | None \<Rightarrow> Inr results)"

definition filter_sensor_type :: "string option \<Rightarrow> pydict list \<Rightarrow> exc + pydict list" where
  "filter_sensor_type sensor_type results =
     (case sensor_type of
        Some sty \<Rightarrow> if sty \<noteq> [] then comprehension (sensor_cond sty) results else Inr results
      | None \<Rightarrow> Inr results)"

definition filter_lat :: "rat option \<Rightarrow> pydict list \<Rightarrow> exc + pydict list" where
  "filter_lat lat results =
     (case lat of
        Some x \<Rightarrow> comprehension (gps_cond ''gps_lat'' x) results
      | None \<Rightarrow> Inr results)"

definition filter_lon :: "rat option \<Rightarrow> pydict list \<Rightarrow> exc + pydict list" where
  "filter_lon lon results =
     (case lon of
        Some x \<Rightarrow> comprehension (gps_cond ''gps_lon'' x) results
      | None \<Rightarrow> Inr results)"

text \<open>The dictionary that \<^verbatim>\<open>query_data\<close> returns.\<close>

definition query_response ::
  "string option \<Rightarrow> string option \<Rightarrow> rat option \<Rightarrow> rat option \<Rightarrow> pydict list \<Rightarrow> pydict"
  where
  "query_response start_date sensor_type lat lon results =
     [(''filters_applied'',
        PyDict [(''start_date'', opt_str start_date),
                (''sensor_type'', opt_str sensor_type),
                (''lat'', opt_float lat),
                (''lon'', opt_float lon)]),
      (''total_found'', PyInt (int (length results))),
      (''results'', PyList (map PyDict results))]"

text \<open>\<^verbatim>\<open>query_data(start_date, sensor_type, lat, lon, user)\<close>.\<close>

definition query_data ::
  "string option \<Rightarrow> string option \<Rightarrow> rat option \<Rightarrow> rat option \<Rightarrow> pydict \<Rightarrow> state
     \<Rightarrow> exc + pydict" where
  "query_data start_date sensor_type lat lon user st =
     exc_bind (Inr (map snd (missions_db st))) (\<lambda>results.
     exc_bind (filter_start_date start_date results) (\<lambda>results.
     exc_bind (filter_sensor_type sensor_type results) (\<lambda>results.
     exc_bind (filter_lat lat results) (\<lambda>results.
     exc_bind (filter_lon lon results) (\<lambda>results.
     Inr (query_response start_date sensor_type lat lon results))))))"

definition get_simulations :: "pydict \<Rightarrow> state \<Rightarrow> pyval" where
  "get_simulations user st = PyList (map PyDict (simulations_db st))"

section \<open>The public operations\<close>

text \<open>
  A request to one of the eight routes. Every route but signup and login depends on
  \<open>get_current_user\<close>, run on the bearer token before the route's function; the token is the
  first argument of those requests.
\<close>

datatype request =
    Signup string string string string nat
  | Login string string
  | Me string
  | Upload string UploadData
  | MissionStatus string string
  | QueryData string "string option" "string option" "rat option" "rat option"
  | Simulate string int "nat \<Rightarrow> draws" string
  | Simulations string

definition protected ::
  "libs \<Rightarrow> string \<Rightarrow> state \<Rightarrow> (pydict \<Rightarrow> (exc + pyval) \<times> state) \<Rightarrow> (exc + pyval) \<times> state"
  where
  "protected L token st route =
     (case get_current_user L token st of
        Inl e \<Rightarrow> (Inl e, st)
      | Inr user \<Rightarrow> route user)"

definition as_json :: "exc + pydict \<Rightarrow> exc + pyval" where
  "as_json r = (case r of Inl e \<Rightarrow> Inl e | Inr d \<Rightarrow> Inr (PyDict d))"

fun handle :: "libs \<Rightarrow> request \<Rightarrow> state \<Rightarrow> (exc + pyval) \<times> state" where
  "handle L (Signup first_name last_name email password salt) st =
     (case signup L first_name last_name email password salt st of
        (r, st') \<Rightarrow> (as_json r, st'))"
| "handle L (Login email password) st = (as_json (login L email password st), st)"
| "handle L (Me token) st = protected L token st (\<lambda>user. (as_json (get_me user), st))"
| "handle L (Upload token data) st =
     protected L token st (\<lambda>user.
       case upload_data data user st of (r, st') \<Rightarrow> (Inr (PyDict r), st'))"
| "handle L (MissionStatus token mission_id) st =
     protected L token st (\<lambda>user. (as_json (get_mission_status mission_id user st), st))"
| "handle L (QueryData token start_date sensor_type lat lon) st =
     protected L token st (\<lambda>user.
       (as_json (query_data start_date sensor_type lat lon user st), st))"
| "handle L (Simulate token num rnd now) st =
     protected L token st (\<lambda>user.
       case simulate_missions num user rnd now st of (r, st') \<Rightarrow> (Inr (PyDict r), st'))"
| "handle L (Simulations token) st =
     protected L token st (\<lambda>user. (Inr (get_simulations user st), st))"

text \<open>The states the process can be in: the empty databases of the module, and what a
  request makes of such a state.\<close>

inductive reachable :: "libs \<Rightarrow> state \<Rightarrow> bool" for L :: libs where
  reachable_init: "reachable L init_state"
| reachable_step: "reachable L st \<Longrightarrow> reachable L (snd (handle L req st))"

section \<open>A concrete instance of the libraries\<close>

text \<open>
  An instance of the library parameters on which the program can be run. Hashing and
  verification behave as \<^verbatim>\<open>passlib\<close> does with \<^verbatim>\<open>bcrypt\<close>: a password that holds a NUL
  character is refused with \<^verbatim>\<open>PasswordValueError\<close>, only the first 72 characters of a
  password are read, and a string that is not a hash is refused with
  \<^verbatim>\<open>UnknownHashError\<close>. The hash is as many letters as the salt, a dollar sign and the part
  of the password that is read, and a token carries the algorithm, the subject and the key in
  clear; decoding rejects what was not issued under the key.
\<close>

definition toy_hash :: "string \<Rightarrow> nat \<Rightarrow> exc + string" where
  "toy_hash password salt =
     (if CHR 0x00 \<in> set password then Inl PasswordValueError
      else Inr (replicate salt (CHR ''s'') @ ''$'' @ take 72 password))"

definition toy_verify :: "string \<Rightarrow> string \<Rightarrow> exc + bool" where
  "toy_verify password hashed =
     (if CHR ''$'' \<notin> set hashed then Inl UnknownHashError
      else if CHR 0x00 \<in> set password then Inl PasswordValueError
      else Inr (drop (Suc (length (takeWhile (\<lambda>c. c \<noteq> CHR ''$'') hashed))) hashed
                  = take 72 password))"

definition toy_decode :: "string \<Rightarrow> string \<Rightarrow> string list \<Rightarrow> pydict option" where
  "toy_decode token key algorithms =
     (case algorithms of
        [] \<Rightarrow> None
      | alg # _ \<Rightarrow>
          let n = length token; h = length alg + 1; g = length key + 1
          in if h + g \<le> n \<and> take h token = alg @ ''.'' \<and> drop (n - g) token = ''.'' @ key
             then Some [(''sub'', PyStr (take (n - g - h) (drop h token)))]
             else None)"

definition toy_libs :: libs where
  "toy_libs =
     \<lparr>pwd_hash = toy_hash,
      pwd_verify = toy_verify,
      jws_header = (\<lambda>algorithm. algorithm),
      jws_claims = (\<lambda>claims. case dict_get claims ''sub'' of PyStr e \<Rightarrow> e | _ \<Rightarrow> []),
      jws_signature = (\<lambda>key algorithm signing_input. key),
      jwt_decode = toy_decode\<rparr>"

definition sample_draws :: draws where
  "sample_draws =
     \<lparr>r_start = 3000000000000000, r_status = 2, r_sensor = 0, r_lat = 1234567890123456,
      r_lon = 8000000000000001, r_progress = 250, r_minutes = 44\<rparr>"

text \<open>The mission that \<open>sample_draws\<close> makes in an empty store, and the run and the state
  that one simulated mission leaves. The two coordinates are the doubles that Python prints
  as \<^verbatim>\<open>4.274129\<close> and \<^verbatim>\<open>-73.723643\<close>.\<close>

definition sample_mission :: pydict where
  "sample_mission =
     [(''mission_id'', PyStr ''M1001''),
      (''sensor_type'', PyStr ''thermal''),
      (''type'', PyStr ''thermal''),
      (''timestamp'', PyStr ''2025-05-02T05:40:21Z''),
      (''start_time'', PyStr ''2025-05-02T05:40:21Z''),
      (''gps_lat'', PyFloat (2406120721466679 / 562949953421312)),
      (''gps_lon'', PyFloat (- 5187840174112429 / 70368744177664)),
      (''status'', PyStr ''completed''),
      (''progress'', PyInt 48),
      (''end_time'', PyStr ''2025-05-02T06:25:21Z'')]"

definition sample_run :: pydict where
  "sample_run =
     [(''simulation_id'', PyInt 1),
      (''missions_generated'', PyInt 1),
      (''timestamp'', PyStr ''2026-01-01T00:00:00Z''),
      (''missions'', PyList [PyDict sample_mission])]"

definition sample_state :: state where
  "sample_state =
     \<lparr>missions_db = [(''M1001'', sample_mission)], data_db = [],
      simulations_db = [sample_run], users_db = []\<rparr>"

definition registered_state :: state where
  "registered_state = snd (signup toy_libs ''A'' ''B'' ''a@x.com'' ''pw1'' 3 init_state)"

text \<open>A second user, registered with a password of 73 characters.\<close>

definition long_state :: state where
  "long_state =
     snd (handle toy_libs (Signup ''C'' ''D'' ''c@x.com'' (replicate 72 (CHR ''a'') @ ''b'') 1)
            registered_state)"

definition ghost_token :: string where
  "ghost_token = create_jwt toy_libs [(''sub'', PyStr ''ghost@x.com'')]"

definition mission_key :: "nat \<Rightarrow> string" where
  "mission_key k = ''M'' @ str_nat (1000 + k)"

definition dense_keys :: "(string \<times> pydict) list \<Rightarrow> bool" where
  "dense_keys db = (map fst db = map mission_key [1..<Suc (length db)])"

definition a_token :: string where
  "a_token = create_jwt toy_libs [(''sub'', PyStr ''a@x.com'')]"

definition simulated_state :: state where
  "simulated_state =
     snd (handle toy_libs (Simulate a_token 1 (\<lambda>i. sample_draws) ''2026-01-01T00:00:00'')
            registered_state)"

text \<open>The floats that the query parameters \<^verbatim>\<open>lat=4.2745\<close> and \<^verbatim>\<open>lat=4.273129\<close> are parsed
  to.\<close>

definition lat_4_2745 :: rat where
  "lat_4_2745 = nearest_double 4.2745"

definition lat_4_273129 :: rat where
  "lat_4_273129 = nearest_double 4.273129"

text \<open>The state after a list of requests, served one after the other.\<close>

definition serve :: "libs \<Rightarrow> request list \<Rightarrow> state \<Rightarrow> state" where
  "serve L reqs st = foldl (\<lambda>s req. snd (handle L req s)) st reqs"

text \<open>The fields that the filters of \<^verbatim>\<open>query_data\<close> read have the types that
  \<^verbatim>\<open>simulate_missions\<close> gives them.\<close>

definition mission_typed :: "pydict \<Rightarrow> bool" where
  "mission_typed m =
     (\<exists>ts sty y x. map_of m ''timestamp'' = Some (PyStr ts) \<and> ts \<noteq> []
        \<and> map_of m ''sensor_type'' = Some (PyStr sty)
        \<and> map_of m ''gps_lat'' = Some (PyFloat y)
        \<and> map_of m ''gps_lon'' = Some (PyFloat x))"

text \<open>
  The filter as the specification words it, to be compared with \<^verbatim>\<open>query_data\<close>: a record is
  kept when its timestamp is at least \<open>start_date\<close> in the lexicographic order, its sensor
  type equals \<open>sensor_type\<close>, and its latitude and longitude are within 0.001 of \<open>lat\<close> and
  \<open>lon\<close>; an absent option imposes no constraint, and neither does an empty \<open>sensor_type\<close>.
  The distance is taken in double precision: \<open>within_tolerance x y\<close> holds when the float difference of
  \<open>y\<close> and \<open>x\<close> is at most the double nearest to 0.001 in absolute value.
\<close>

definition within_tolerance :: "rat \<Rightarrow> rat \<Rightarrow> bool" where
  "within_tolerance x y = (\<bar>float_sub y x\<bar> \<le> nearest_double 0.001)"


definition spec_keep ::
  "string option \<Rightarrow> string option \<Rightarrow> rat option \<Rightarrow> rat option \<Rightarrow> pydict \<Rightarrow> bool" where
  "spec_keep start_date sensor_type lat lon m =
     ((case start_date of
         None \<Rightarrow> True
       | Some sd \<Rightarrow> (case dict_get m ''timestamp'' of PyStr ts \<Rightarrow> sd \<le> ts | _ \<Rightarrow> False))
    \<and> (case sensor_type of
         None \<Rightarrow> True
       | Some sty \<Rightarrow> sty = [] \<or> dict_get m ''sensor_type'' = PyStr sty)
    \<and> (case lat of
         None \<Rightarrow> True
       | Some x \<Rightarrow> (case dict_get m ''gps_lat'' of PyFloat y \<Rightarrow> within_tolerance x y | _ \<Rightarrow> False))
    \<and> (case lon of
         None \<Rightarrow> True
       | Some x \<Rightarrow> (case dict_get m ''gps_lon'' of PyFloat y \<Rightarrow> within_tolerance x y | _ \<Rightarrow> False)))"

text \<open>The filter blocks of \<^verbatim>\<open>query_data\<close> in the order of the source, and a list of such
  blocks run one after the other.\<close>

definition query_stages ::
  "string option \<Rightarrow> string option \<Rightarrow> rat option \<Rightarrow> rat option
     \<Rightarrow> (pydict list \<Rightarrow> exc + pydict list) list" where
  "query_stages start_date sensor_type lat lon =
     [filter_start_date start_date, filter_sensor_type sensor_type, filter_lat lat,
      filter_lon lon]"

fun apply_stages :: "('a \<Rightarrow> exc + 'a) list \<Rightarrow> 'a \<Rightarrow> exc + 'a" where
  "apply_stages [] results = Inr results"
| "apply_stages (f # fs) results = exc_bind (f results) (apply_stages fs)"

text \<open>Two decimal digits, as \<^verbatim>\<open>isoformat\<close> prints months, days, hours, minutes and
  seconds.\<close>

definition pad2 :: "nat \<Rightarrow> string" where
  "pad2 n = zfill 2 (str_nat n)"

text \<open>The start instant that \<^verbatim>\<open>simulate_missions\<close> draws, and the statuses it chooses
  from.\<close>

definition start_dt :: "draws \<Rightarrow> datetime" where
  "start_dt d =
     datetime_ymd 2025 1 1
       + timedelta_mul (datetime_ymd 2025 12 31 - datetime_ymd 2025 1 1) (random (r_start d))"

definition statuses :: "string list" where
  "statuses = [''pending'', ''processing'', ''completed'']"

section \<open>Properties of the simulation\<close>

lemma simulate_loop_created:
  "snd (simulate_loop k rnd i db created) =
     created @ snd (simulate_loop k rnd i db [])"
proof (induction k arbitrary: i db created)
  case 0
  show ?case by simp
next
  case (Suc k)
  show ?case
    using Suc.IH [of "Suc i" _ "created @ [new_mission (length db) (rnd i)]"]
          Suc.IH [of "Suc i" _ "[new_mission (length db) (rnd i)]"]
    by (simp add: Let_def)
qed

lemma simulate_loop_zero_iterations:
  "simulate_loop 0 rnd i db created = (db, created)"
  by simp

text \<open>
  Claim C10. For every integer \<open>count \<le> 0\<close>, \<open>simulate_missions count\<close> returns normally: it
  generates no mission and leaves the mission store (and the user and data stores)
  unchanged, and it appends one run to the simulation log, which is also the value returned;
  the run's \<open>missions_generated\<close> is the requested count, its \<open>missions\<close> list is empty and
  its \<open>simulation_id\<close> is the previous number of runs plus one.
\<close>

theorem simulate_nonpositive_count:
  assumes "num \<le> 0"
  shows "\<exists>run st'. simulate_missions num user rnd now st = (run, st')
           \<and> missions_db st' = missions_db st
           \<and> users_db st' = users_db st
           \<and> data_db st' = data_db st
           \<and> simulations_db st' = simulations_db st @ [run]
           \<and> map_of run ''missions_generated'' = Some (PyInt num)
           \<and> map_of run ''missions'' = Some (PyList [])
           \<and> map_of run ''simulation_id''
               = Some (PyInt (int (length (simulations_db st)) + 1))"
  using assms by (simp add: simulate_missions_def Let_def)

theorem simulate_nonpositive_count_witness:
  "(- 2 :: int) \<le> 0
   \<and> (\<exists>run st'. simulate_missions (- 2) [] (\<lambda>i. sample_draws) ''2026-01-01T00:00:00'' init_state
         = (run, st')
       \<and> missions_db st' = missions_db init_state
       \<and> users_db st' = users_db init_state
       \<and> data_db st' = data_db init_state
       \<and> simulations_db st' = simulations_db init_state @ [run]
       \<and> map_of run ''missions_generated'' = Some (PyInt (- 2))
       \<and> map_of run ''missions'' = Some (PyList [])
       \<and> map_of run ''simulation_id''
           = Some (PyInt (int (length (simulations_db init_state)) + 1)))"
proof -
  have h: "(- 2 :: int) \<le> 0" by simp
  show ?thesis
    using h simulate_nonpositive_count [OF h, of "[]" "\<lambda>i. sample_draws" "''2026-01-01T00:00:00''" init_state]
    by simp
qed

lemma map_of_dict_set:
  "map_of (dict_set d k v) k' = (if k' = k then Some v else map_of d k')"
  by (induction d) auto

lemma simulate_loop_length:
  "length (snd (simulate_loop k rnd i db created)) = length created + k"
  by (induction k arbitrary: i db created) (simp_all add: Let_def)

lemma simulate_loop_members:
  "m \<in> set (snd (simulate_loop k rnd i db created)) \<Longrightarrow>
     m \<in> set created \<or> (\<exists>n j. m = new_mission n (rnd j))"
proof (induction k arbitrary: i db created)
  case 0
  then show ?case by simp
next
  case (Suc k)
  from Suc.prems Suc.IH [of "Suc i" _ "created @ [new_mission (length db) (rnd i)]"]
  show ?case by (auto simp: Let_def)
qed

lemma simulate_missions_run:
  assumes "simulate_missions num user rnd now st = (run, st')"
  shows "\<exists>ms. map_of run ''missions'' = Some (PyList (map PyDict ms))
           \<and> length ms = nat num
           \<and> (\<forall>m\<in>set ms. \<exists>n j. m = new_mission n (rnd j))"
proof -
  obtain db ms where loop: "simulate_loop (nat num) rnd 0 (missions_db st) [] = (db, ms)"
    by (cases "simulate_loop (nat num) rnd 0 (missions_db st) []") auto
  have len: "length ms = nat num"
    using simulate_loop_length [of "nat num" rnd 0 "missions_db st" "[]"] loop by simp
  have mem: "\<forall>m\<in>set ms. \<exists>n j. m = new_mission n (rnd j)"
    using simulate_loop_members [of _ "nat num" rnd 0 "missions_db st" "[]"] loop by auto
  have "map_of run ''missions'' = Some (PyList (map PyDict ms))"
    using assms loop by (auto simp: simulate_missions_def Let_def)
  with len mem show ?thesis by blast
qed

lemma new_mission_sensor_type:
  "map_of (new_mission n d) ''sensor_type'' = Some (PyStr (choice mission_types (r_sensor d)))"
  "map_of (new_mission n d) ''type'' = Some (PyStr (choice mission_types (r_sensor d)))"
  by (simp_all add: new_mission_def Let_def map_of_dict_set)

lemma new_mission_timestamp:
  "map_of (new_mission n d) ''timestamp'' = map_of (new_mission n d) ''start_time''"
  "\<exists>s. map_of (new_mission n d) ''start_time'' = Some (PyStr s)"
  by (simp_all add: new_mission_def Let_def map_of_dict_set)

text \<open>
  Claim C9. Every mission record of the run that \<open>simulate_missions\<close> returns has a
  \<open>sensor_type\<close> key and a \<open>type\<close> key bound to the same value, and a \<open>timestamp\<close> key and a
  \<open>start_time\<close> key bound to the same value. The run holds one record per iteration.
\<close>

theorem simulate_duplicate_fields:
  assumes "simulate_missions num user rnd now st = (run, st')"
  shows "\<exists>ms. map_of run ''missions'' = Some (PyList (map PyDict ms))
           \<and> length ms = nat num
           \<and> (\<forall>m\<in>set ms.
                (\<exists>v. map_of m ''sensor_type'' = Some v \<and> map_of m ''type'' = Some v)
              \<and> (\<exists>t. map_of m ''timestamp'' = Some t \<and> map_of m ''start_time'' = Some t))"
proof -
  from simulate_missions_run [OF assms] obtain ms where
    run: "map_of run ''missions'' = Some (PyList (map PyDict ms))" and
    len: "length ms = nat num" and
    mem: "\<forall>m\<in>set ms. \<exists>n j. m = new_mission n (rnd j)"
    by blast
  have "(\<exists>v. map_of m ''sensor_type'' = Some v \<and> map_of m ''type'' = Some v)
      \<and> (\<exists>t. map_of m ''timestamp'' = Some t \<and> map_of m ''start_time'' = Some t)"
    if "m \<in> set ms" for m
  proof -
    from mem that obtain n j where m: "m = new_mission n (rnd j)" by blast
    show ?thesis
      unfolding m using new_mission_sensor_type [of n "rnd j"] new_mission_timestamp [of n "rnd j"]
      by auto
  qed
  with run len show ?thesis by blast
qed

section \<open>Evaluation at the sample entropy\<close>

lemma divide_and_round_scale:
  assumes "0 < k" "0 < b"
  shows "divide_and_round (k * a) (k * b) = divide_and_round a b"
proof -
  have d: "(k * a) div (k * b) = a div b" using assms by simp
  have m: "(k * a) mod (k * b) = k * (a mod b)" using assms by simp
  have kb: "0 < k * b" using assms by simp
  have c1: "(2 * (k * (a mod b)) > k * b) = (2 * (a mod b) > b)"
    using assms(1) by (metis mult.left_commute mult_less_cancel_left_pos)
  have c2: "(2 * (k * (a mod b)) = k * b) = (2 * (a mod b) = b)"
    using assms(1) by (metis mult.left_commute mult_cancel_left less_irrefl)
  show ?thesis
    unfolding divide_and_round_def Let_def d m using kb assms(2) c1 c2 by simp
qed

lemma quotient_of_ratio:
  assumes "0 < b"
  obtains k a' b' where "quotient_of (of_int a / of_int b) = (a', b')" "0 < k" "0 < b'" "a = k * a'" "b = k * b'"
proof -
  obtain a' b' where q: "quotient_of (of_int a / of_int b :: rat) = (a', b')"
    by (cases "quotient_of (of_int a / of_int b :: rat)") auto
  have b': "0 < b'" using q by (rule quotient_of_denom_pos)
  have co: "coprime a' b'" using q by (rule quotient_of_coprime)
  have eq: "(of_int a / of_int b :: rat) = of_int a' / of_int b'"
    using q by (rule quotient_of_div)
  then have cross: "a * b' = a' * b"
    using assms b' by (simp add: field_simps flip: of_int_mult)
  have "b' dvd a' * b" using cross by (metis dvd_triv_right)
  then have "b' dvd b" using co by (simp add: coprime_commute coprime_dvd_mult_right_iff)
  then obtain k where k: "b = b' * k" by (auto simp: dvd_def)
  have kpos: "0 < k" using k assms b' by (simp add: zero_less_mult_iff)
  have "a * b' = a' * (b' * k)" using cross k by simp
  then have "a = k * a'" using b' by (simp add: mult.commute mult.left_commute)
  then show ?thesis using that [OF q kpos b'] k by (simp add: mult.commute)
qed

lemma timedelta_mul_ratio:
  assumes "0 < b"
  shows "timedelta_mul td (of_int a / of_int b) = nat (divide_and_round (int td * a) b)"
proof -
  from quotient_of_ratio [OF assms, of a] obtain k a' b' where
    q: "quotient_of (of_int a / of_int b) = (a', b')" and k: "0 < k" and b': "0 < b'"
    and a: "a = k * a'" and b: "b = k * b'" by blast
  have "divide_and_round (int td * a) b = divide_and_round (k * (int td * a')) (k * b')"
    unfolding a b by (simp add: mult.left_commute)
  also have "\<dots> = divide_and_round (int td * a') b'" using k b' by (rule divide_and_round_scale)
  finally show ?thesis by (simp add: timedelta_mul_def q)
qed

lemma datetime_2025_1_1: "datetime_ymd 2025 1 1 = 0"
  by (simp add: datetime_ymd_def)

lemma datetime_2025_12_31: "datetime_ymd 2025 12 31 = 364 * day_us"
  by (simp add: datetime_ymd_def month_lengths_def is_leap_def)

lemma random_ratio: "random r = of_int (int (r mod 2 ^ 53)) / of_int (2 ^ 53)"
  by (simp add: random_def)

lemma sample_start:
  "timedelta_mul (364 * day_us) (random 3000000000000000) = 10474821010575"
  unfolding random_ratio
  by (subst timedelta_mul_ratio) (simp_all add: divide_and_round_def day_us_def)


lemma nearest_double_2: "nearest_double 2 = 2"
  by code_simp

lemma random_sample_lat: "random 1234567890123456 = 1234567890123456 / 9007199254740992"
  by (simp add: random_def)

lemma sample_lat:
  "round_ndigits (uniform 4 6 1234567890123456) 6 = 2406120721466679 / 562949953421312"
proof -
  have "round_ndigits (nearest_double (4 + nearest_double (nearest_double (6 - 4)
          * (1234567890123456 / 9007199254740992)))) 6 = 2406120721466679 / 562949953421312"
    by code_simp
  then show ?thesis unfolding uniform_def random_sample_lat .
qed

lemma random_sample_lon: "random 8000000000000001 = 8000000000000001 / 9007199254740992"
  by (simp add: random_def)

lemma sample_lon:
  "round_ndigits (uniform (- 75.5) (- 73.5) 8000000000000001) 6
     = - 5187840174112429 / 70368744177664"
proof -
  have "round_ndigits (nearest_double (- 75.5 + nearest_double (nearest_double (- 73.5 - - 75.5)
          * (8000000000000001 / 9007199254740992)))) 6 = - 5187840174112429 / 70368744177664"
    by code_simp
  then show ?thesis unfolding uniform_def random_sample_lon .
qed

lemma parsed_literals:
  "lat_4_2745 = 1203164787949699 / 281474976710656"
  "lat_4_273129 = 4811115543026515 / 1125899906842624"
  unfolding lat_4_2745_def lat_4_273129_def by code_simp+

lemma sample_within:
  "within_tolerance lat_4_2745 (2406120721466679 / 562949953421312)"
  "\<not> within_tolerance lat_4_273129 (2406120721466679 / 562949953421312)"
  unfolding within_tolerance_def float_sub_def lat_4_2745_def lat_4_273129_def by code_simp+

lemma digit_chars:
  "char_of (48::nat) = CHR ''0''" "char_of (49::nat) = CHR ''1''" "char_of (50::nat) = CHR ''2''"
  "char_of (51::nat) = CHR ''3''" "char_of (52::nat) = CHR ''4''" "char_of (53::nat) = CHR ''5''"
  "char_of (54::nat) = CHR ''6''" "char_of (55::nat) = CHR ''7''" "char_of (56::nat) = CHR ''8''"
  "char_of (57::nat) = CHR ''9''"
  by (simp_all add: char_of_def bit_Suc_0_iff)

lemma isoformat_sample:
  "isoformat 10474821000000 = ''2025-05-02T05:40:21''"
  "isoformat 10477521000000 = ''2025-05-02T06:25:21''"
  by (simp_all add: isoformat_def day_us_def year_of.simps days_in_year_def is_leap_def
       month_lengths_def zfill_def str_nat.simps digit_chars)

lemma sample_start_dt:
  "datetime_ymd 2025 1 1
     + timedelta_mul (datetime_ymd 2025 12 31 - datetime_ymd 2025 1 1) (random 3000000000000000)
   = 10474821010575"
  unfolding datetime_2025_1_1 datetime_2025_12_31 by (simp add: sample_start)

lemma new_mission_sample: "new_mission 0 sample_draws = sample_mission"
  unfolding new_mission_def sample_draws_def draws.simps sample_start_dt sample_lat sample_lon
  by (simp add: sample_mission_def Let_def
        replace_microsecond0_def isoformat_sample choice_def mission_types_def randint_def
        timedelta_minutes_def str_int_def str_nat.simps digit_chars)

lemma simulate_sample:
  "simulate_missions 1 user (\<lambda>i. sample_draws) ''2026-01-01T00:00:00'' init_state =
     (sample_run, sample_state)"
  by (simp add: simulate_missions_def init_state_def Let_def new_mission_sample
        sample_run_def sample_state_def str_int_def str_nat.simps digit_chars)

theorem simulate_duplicate_fields_witness:
  "simulate_missions 1 [] (\<lambda>i. sample_draws) ''2026-01-01T00:00:00'' init_state
     = (sample_run, sample_state)
   \<and> (\<exists>ms. map_of sample_run ''missions'' = Some (PyList (map PyDict ms))
           \<and> length ms = nat 1
           \<and> (\<forall>m\<in>set ms.
                (\<exists>v. map_of m ''sensor_type'' = Some v \<and> map_of m ''type'' = Some v)
              \<and> (\<exists>t. map_of m ''timestamp'' = Some t \<and> map_of m ''start_time'' = Some t)))"
  using simulate_sample [of "[]"] simulate_duplicate_fields [OF simulate_sample [of "[]"]]
  by blast

lemma toy_hash_sample: "pwd_hash toy_libs ''pw1'' 3 = Inr ''sss$pw1''"
  by (simp add: toy_libs_def toy_hash_def numeral_3_eq_3)

lemma toy_verify_sample:
  "pwd_verify toy_libs ''pw1'' ''sss$pw1'' = Inr True"
  "pwd_verify toy_libs ''wrong'' ''sss$pw1'' = Inr False"
  "pwd_verify toy_libs [CHR ''p'', CHR 0x00] ''sss$pw1'' = Inl PasswordValueError"
  by (simp_all add: toy_libs_def toy_verify_def)

lemma ghost_token_eq: "ghost_token = ''HS256.ghost@x.com.SUPER_SECRET_KEY_123''"
  by (simp add: ghost_token_def create_jwt_def jwt_encode_def toy_libs_def dict_get_def
        SECRET_KEY_def ALGORITHM_def)

lemma decode_ghost_token: "decode_jwt toy_libs ghost_token = Some [(''sub'', PyStr ''ghost@x.com'')]"
  by (simp add: ghost_token_eq decode_jwt_def toy_libs_def toy_decode_def SECRET_KEY_def ALGORITHM_def)

lemma decode_garbage: "decode_jwt toy_libs ''garbage'' = None"
  by (simp add: decode_jwt_def toy_libs_def toy_decode_def SECRET_KEY_def ALGORITHM_def)

section \<open>Session resolution and login\<close>

text \<open>
  Claim C1, as the code has it. \<open>get_current_user\<close> fails with status 401 and detail
  \<open>Invalid or expired token\<close> when the token does not decode, and with status 404 and
  detail \<open>User not found\<close> when the token decodes and its subject is missing or is an email
  that is not in \<open>users_db\<close>. The two errors differ, in status and in detail.
\<close>

theorem get_current_user_errors:
  "(decode_jwt L token = None \<longrightarrow>
      get_current_user L token st = Inl (HTTPException 401 ''Invalid or expired token''))
   \<and> (\<forall>payload email.
        decode_jwt L token = Some payload \<and> dict_get payload ''sub'' = PyStr email
          \<and> map_of (users_db st) email = None \<longrightarrow>
        get_current_user L token st = Inl (HTTPException 404 ''User not found''))
   \<and> (\<forall>payload.
        decode_jwt L token = Some payload \<and> map_of payload ''sub'' = None \<longrightarrow>
        get_current_user L token st = Inl (HTTPException 404 ''User not found''))
   \<and> HTTPException 401 ''Invalid or expired token'' \<noteq> HTTPException 404 ''User not found''"
  by (auto simp: get_current_user_def dict_get_def)

theorem get_current_user_errors_witness:
  "decode_jwt toy_libs ''garbage'' = None
   \<and> get_current_user toy_libs ''garbage'' init_state
       = Inl (HTTPException 401 ''Invalid or expired token'')
   \<and> decode_jwt toy_libs ghost_token = Some [(''sub'', PyStr ''ghost@x.com'')]
   \<and> dict_get [(''sub'', PyStr ''ghost@x.com'')] ''sub'' = PyStr ''ghost@x.com''
   \<and> map_of (users_db init_state) ''ghost@x.com'' = None
   \<and> get_current_user toy_libs ghost_token init_state
       = Inl (HTTPException 404 ''User not found'')"
  using get_current_user_errors [of toy_libs "''garbage''" init_state]
        get_current_user_errors [of toy_libs ghost_token init_state]
        decode_garbage decode_ghost_token
  by (simp add: dict_get_def init_state_def)

text \<open>
  Claim C1 as stated fails: on the empty user table a token that does not decode and a token
  issued for an email that is not registered are answered by different errors.
\<close>

theorem get_current_user_not_uniform:
  "get_current_user toy_libs ''garbage'' init_state
     = Inl (HTTPException 401 ''Invalid or expired token'')
   \<and> get_current_user toy_libs ghost_token init_state
     = Inl (HTTPException 404 ''User not found'')
   \<and> get_current_user toy_libs ''garbage'' init_state
     \<noteq> get_current_user toy_libs ghost_token init_state"
  by (simp add: get_current_user_def decode_garbage decode_ghost_token dict_get_def init_state_def)

lemma registered_state_eq:
  "registered_state =
     \<lparr>missions_db = [], data_db = [], simulations_db = [],
      users_db = [(''a@x.com'',
        [(''first_name'', PyStr ''A''), (''last_name'', PyStr ''B''),
         (''email'', PyStr ''a@x.com''), (''password'', PyStr ''sss$pw1'')])]\<rparr>"
  by (simp add: registered_state_def signup_def init_state_def dict_in_def hash_password_def
        toy_hash_sample)

lemma reachable_registered: "reachable toy_libs registered_state"
proof -
  have e: "registered_state
      = snd (handle toy_libs (Signup ''A'' ''B'' ''a@x.com'' ''pw1'' 3) init_state)"
    by (simp add: registered_state_def split_beta)
  show ?thesis unfolding e using reachable_init by (rule reachable_step)
qed

lemma reachable_long: "reachable toy_libs long_state"
  unfolding long_state_def using reachable_registered by (rule reachable_step)

lemma long_state_eq:
  "long_state =
     \<lparr>missions_db = [], data_db = [], simulations_db = [],
      users_db = [(''a@x.com'',
        [(''first_name'', PyStr ''A''), (''last_name'', PyStr ''B''),
         (''email'', PyStr ''a@x.com''), (''password'', PyStr ''sss$pw1'')]),
       (''c@x.com'',
        [(''first_name'', PyStr ''C''), (''last_name'', PyStr ''D''),
         (''email'', PyStr ''c@x.com''),
         (''password'', PyStr (''s$'' @ replicate 72 (CHR ''a'')))])]\<rparr>"
  by (simp add: long_state_def registered_state_eq signup_def dict_in_def hash_password_def
        toy_libs_def toy_hash_def as_json_def)

lemma toy_verify_long:
  "pwd_verify toy_libs (replicate 72 (CHR ''a'') @ ''c'') (''s$'' @ replicate 72 (CHR ''a''))
     = Inr True"
  by (simp add: toy_libs_def toy_verify_def)

text \<open>Only \<^verbatim>\<open>signup\<close> writes \<open>users_db\<close>, and every record it writes holds under
  \<open>password\<close> a hash that \<open>pwd_hash\<close> returned.\<close>

lemma handle_users_db:
  "users_db (snd (handle L req st)) = users_db st
   \<or> (\<exists>email user registered salt hashed.
         pwd_hash L registered salt = Inr hashed
       \<and> map_of user ''password'' = Some (PyStr hashed) \<and> user \<noteq> []
       \<and> users_db (snd (handle L req st)) = dict_set (users_db st) email user)"
proof (cases req)
  case (Signup first_name last_name email password salt)
  show ?thesis
  proof (cases "dict_in email (users_db st)")
    case True
    with Signup show ?thesis by (simp add: signup_def)
  next
    case False
    show ?thesis
    proof (cases "pwd_hash L password salt")
      case (Inl e)
      with Signup False show ?thesis by (simp add: signup_def hash_password_def)
    next
      case (Inr hashed)
      define user where "user = [(''first_name'', PyStr first_name),
        (''last_name'', PyStr last_name), (''email'', PyStr email),
        (''password'', PyStr hashed)]"
      have p: "map_of user ''password'' = Some (PyStr hashed)" and n: "user \<noteq> []"
        by (simp_all add: user_def)
      have u: "users_db (snd (handle L req st)) = dict_set (users_db st) email user"
        using Signup False Inr by (simp add: signup_def hash_password_def user_def)
      have "\<exists>email user registered salt hashed.
         pwd_hash L registered salt = Inr hashed
       \<and> map_of user ''password'' = Some (PyStr hashed) \<and> user \<noteq> []
       \<and> users_db (snd (handle L req st)) = dict_set (users_db st) email user"
        by (rule exI [of _ email], rule exI [of _ user], rule exI [of _ password],
            rule exI [of _ salt], rule exI [of _ hashed]) (intro conjI Inr p n u)
      then show ?thesis ..
    qed
  qed
qed (auto simp: protected_def upload_data_def simulate_missions_def Let_def
       split: sum.splits prod.splits)

lemma reachable_users:
  assumes "reachable L st" "map_of (users_db st) email = Some user"
  shows "\<exists>registered salt hashed.
           pwd_hash L registered salt = Inr hashed
         \<and> map_of user ''password'' = Some (PyStr hashed) \<and> user \<noteq> []"
  using assms
proof (induction arbitrary: email user rule: reachable.induct)
  case reachable_init
  then show ?case by (simp add: init_state_def)
next
  case (reachable_step st req)
  from handle_users_db [of L req st] show ?case
  proof
    assume "users_db (snd (handle L req st)) = users_db st"
    with reachable_step.prems have "map_of (users_db st) email = Some user" by simp
    then show ?thesis by (rule reachable_step.IH)
  next
    assume "\<exists>email user registered salt hashed.
         pwd_hash L registered salt = Inr hashed
       \<and> map_of user ''password'' = Some (PyStr hashed) \<and> user \<noteq> []
       \<and> users_db (snd (handle L req st)) = dict_set (users_db st) email user"
    then obtain email' user' registered salt hashed where
      h: "pwd_hash L registered salt = Inr hashed" and
      p: "map_of user' ''password'' = Some (PyStr hashed)" and n: "user' \<noteq> []" and
      u: "users_db (snd (handle L req st)) = dict_set (users_db st) email' user'"
      by (elim exE conjE)
    show ?thesis
    proof (cases "email = email'")
      case True
      with reachable_step.prems u have "user = user'" by (simp add: map_of_dict_set)
      with h p n show ?thesis by (intro exI conjI) (assumption | simp)+
    next
      case False
      with reachable_step.prems u have "map_of (users_db st) email = Some user"
        by (simp add: map_of_dict_set)
      then show ?thesis by (rule reachable_step.IH)
    qed
  qed
qed

text \<open>
  Claim C6, as the code has it. In every state that the program can reach, \<open>login\<close> fails
  with status 404 (\<open>User not found\<close>) when the email is not a key of \<open>users_db\<close>. For a
  registered email the record holds under \<open>password\<close> the hash that \<open>pwd_hash\<close> returned
  at a registration, and the outcome follows the verifier on the supplied password and that
  hash: \<open>login\<close> fails with status 401 (\<open>Incorrect password\<close>) when the verifier returns
  false; it succeeds with the dictionary of \<open>status\<close>, a non-empty \<open>access_token\<close> and
  \<open>token_type\<close>, which is not the user record, when the verifier returns true; and an
  exception that the verifier raises leaves \<open>login\<close> unchanged, as an error that is not the
  401. Whether the verifier answers true exactly for the registration password is a property
  of the hashing scheme and no part of the statement.
\<close>

theorem login_outcomes:
  assumes "reachable L st"
  shows "(map_of (users_db st) email = None \<longrightarrow>
            login L email password st = Inl (HTTPException 404 ''User not found''))
       \<and> (\<forall>user.
            map_of (users_db st) email = Some user \<longrightarrow>
            (\<exists>registered salt hashed.
                pwd_hash L registered salt = Inr hashed
              \<and> map_of user ''password'' = Some (PyStr hashed)
              \<and> (pwd_verify L password hashed = Inr False \<longrightarrow>
                   login L email password st = Inl (HTTPException 401 ''Incorrect password''))
              \<and> (pwd_verify L password hashed = Inr True \<longrightarrow>
                   (\<exists>token. token \<noteq> []
                      \<and> login L email password st =
                          Inr [(''status'', PyStr ''success''),
                               (''access_token'', PyStr token),
                               (''token_type'', PyStr ''Bearer'')]))
              \<and> (\<forall>e. pwd_verify L password hashed = Inl e \<longrightarrow>
                   login L email password st = Inl e)))"
proof -
  have a: "map_of (users_db st) email = None \<longrightarrow>
            login L email password st = Inl (HTTPException 404 ''User not found'')"
    by (simp add: login_def)
  have b: "\<exists>registered salt hashed.
                pwd_hash L registered salt = Inr hashed
              \<and> map_of user ''password'' = Some (PyStr hashed)
              \<and> (pwd_verify L password hashed = Inr False \<longrightarrow>
                   login L email password st = Inl (HTTPException 401 ''Incorrect password''))
              \<and> (pwd_verify L password hashed = Inr True \<longrightarrow>
                   (\<exists>token. token \<noteq> []
                      \<and> login L email password st =
                          Inr [(''status'', PyStr ''success''),
                               (''access_token'', PyStr token),
                               (''token_type'', PyStr ''Bearer'')]))
              \<and> (\<forall>e. pwd_verify L password hashed = Inl e \<longrightarrow>
                   login L email password st = Inl e)"
    if u: "map_of (users_db st) email = Some user" for user
  proof -
    from reachable_users [OF assms u] obtain registered salt hashed where
      h: "pwd_hash L registered salt = Inr hashed" and
      p: "map_of user ''password'' = Some (PyStr hashed)" and n: "user \<noteq> []"
      by (elim exE conjE)
    have f: "pwd_verify L password hashed = Inr False \<longrightarrow>
        login L email password st = Inl (HTTPException 401 ''Incorrect password'')"
      using u p n by (simp add: login_def verify_password_def)
    have t: "pwd_verify L password hashed = Inr True \<longrightarrow>
        (\<exists>token. token \<noteq> []
           \<and> login L email password st =
               Inr [(''status'', PyStr ''success''),
                    (''access_token'', PyStr token),
                    (''token_type'', PyStr ''Bearer'')])"
      using u p n
      by (simp add: login_def verify_password_def create_jwt_def jwt_encode_def Let_def)
    have e: "\<forall>e. pwd_verify L password hashed = Inl e \<longrightarrow> login L email password st = Inl e"
      using u p n by (simp add: login_def verify_password_def)
    show ?thesis
      by (rule exI [of _ registered], rule exI [of _ salt], rule exI [of _ hashed])
         (intro conjI h p f t e)
  qed
  from a b show ?thesis by (intro conjI allI impI) (assumption | erule mp)+
qed

theorem login_outcomes_witness:
  "reachable toy_libs long_state
   \<and> login toy_libs ''nobody@x.com'' ''pw1'' long_state
       = Inl (HTTPException 404 ''User not found'')
   \<and> login toy_libs ''a@x.com'' ''wrong'' long_state
       = Inl (HTTPException 401 ''Incorrect password'')
   \<and> (\<exists>token. token \<noteq> []
        \<and> login toy_libs ''a@x.com'' ''pw1'' long_state =
            Inr [(''status'', PyStr ''success''),
                 (''access_token'', PyStr token),
                 (''token_type'', PyStr ''Bearer'')])
   \<and> login toy_libs ''a@x.com'' [CHR ''p'', CHR 0x00] long_state = Inl PasswordValueError
   \<and> (\<exists>token. token \<noteq> []
        \<and> login toy_libs ''c@x.com'' (replicate 72 (CHR ''a'') @ ''c'') long_state =
            Inr [(''status'', PyStr ''success''),
                 (''access_token'', PyStr token),
                 (''token_type'', PyStr ''Bearer'')])"
proof -
  let ?a = "[(''first_name'', PyStr ''A''), (''last_name'', PyStr ''B''),
            (''email'', PyStr ''a@x.com''), (''password'', PyStr ''sss$pw1'')]"
  let ?c = "[(''first_name'', PyStr ''C''), (''last_name'', PyStr ''D''),
            (''email'', PyStr ''c@x.com''),
            (''password'', PyStr (''s$'' @ replicate 72 (CHR ''a'')))]"
  have ua: "map_of (users_db long_state) ''a@x.com'' = Some ?a"
    and uc: "map_of (users_db long_state) ''c@x.com'' = Some ?c"
    and n: "map_of (users_db long_state) ''nobody@x.com'' = None"
    by (simp_all add: long_state_eq)
  have pa: "map_of ?a ''password'' = Some (PyStr ''sss$pw1'')"
    and pc: "map_of ?c ''password'' = Some (PyStr (''s$'' @ replicate 72 (CHR ''a'')))"
    by simp_all
  note r = reachable_long
  have w1: "login toy_libs ''nobody@x.com'' ''pw1'' long_state
       = Inl (HTTPException 404 ''User not found'')"
    using login_outcomes [OF r, of "''nobody@x.com''" "''pw1''"] n by simp
  have w2: "login toy_libs ''a@x.com'' ''wrong'' long_state
       = Inl (HTTPException 401 ''Incorrect password'')"
    using login_outcomes [OF r, of "''a@x.com''" "''wrong''"] ua pa toy_verify_sample(2)
    by auto
  have w3: "\<exists>token. token \<noteq> []
        \<and> login toy_libs ''a@x.com'' ''pw1'' long_state =
            Inr [(''status'', PyStr ''success''),
                 (''access_token'', PyStr token),
                 (''token_type'', PyStr ''Bearer'')]"
    using login_outcomes [OF r, of "''a@x.com''" "''pw1''"] ua pa toy_verify_sample(1)
    by auto
  have w4: "login toy_libs ''a@x.com'' [CHR ''p'', CHR 0x00] long_state = Inl PasswordValueError"
    using login_outcomes [OF r, of "''a@x.com''" "[CHR ''p'', CHR 0x00]"] ua pa
      toy_verify_sample(3)
    by auto
  have w5: "\<exists>token. token \<noteq> []
        \<and> login toy_libs ''c@x.com'' (replicate 72 (CHR ''a'') @ ''c'') long_state =
            Inr [(''status'', PyStr ''success''),
                 (''access_token'', PyStr token),
                 (''token_type'', PyStr ''Bearer'')]"
    using login_outcomes [OF r, of "''c@x.com''" "replicate 72 (CHR ''a'') @ ''c''"] uc pc
      toy_verify_long
    by auto
  show ?thesis by (intro conjI) (fact r w1 w2 w3 w4 w5)+
qed

text \<open>
  Claim C6 as stated fails in one part: the successful login of a registered user returns
  the three keys \<open>status\<close>, \<open>access_token\<close> and \<open>token_type\<close>, not the user record.
\<close>

theorem login_response_not_user_record:
  "map_of (users_db registered_state) ''a@x.com'' =
     Some [(''first_name'', PyStr ''A''), (''last_name'', PyStr ''B''),
           (''email'', PyStr ''a@x.com''), (''password'', PyStr ''sss$pw1'')]
   \<and> login toy_libs ''a@x.com'' ''pw1'' registered_state =
       Inr [(''status'', PyStr ''success''),
            (''access_token'', PyStr ''HS256.a@x.com.SUPER_SECRET_KEY_123''),
            (''token_type'', PyStr ''Bearer'')]
   \<and> login toy_libs ''a@x.com'' ''pw1'' registered_state \<noteq>
       Inr [(''first_name'', PyStr ''A''), (''last_name'', PyStr ''B''),
            (''email'', PyStr ''a@x.com''), (''password'', PyStr ''sss$pw1'')]"
  by (simp add: registered_state_eq login_def verify_password_def toy_libs_def toy_verify_def
        create_jwt_def jwt_encode_def dict_get_def SECRET_KEY_def ALGORITHM_def)

lemma str_nat_nonempty: "str_nat n \<noteq> []"
  by (subst str_nat.simps) simp

lemma digit_inj:
  assumes "char_of (48 + a) = (char_of (48 + b) :: char)" "a < 10" "b < 10"
  shows "a = (b::nat)"
proof -
  have "(of_char (char_of (48 + a) :: char) :: nat) = of_char (char_of (48 + b) :: char)"
    by (rule arg_cong [OF assms(1)])
  then have "(48 + a) mod 256 = (48 + b) mod 256"
    by (simp only: of_char_of)
  moreover have "(48 + a) mod 256 = 48 + a" "(48 + b) mod 256 = 48 + b"
    using assms(2,3) by simp_all
  ultimately show ?thesis by linarith
qed

lemma str_nat_small: "n < 10 \<Longrightarrow> str_nat n = [char_of (48 + n)]"
  by (subst str_nat.simps) simp

lemma str_nat_big: "\<not> n < 10 \<Longrightarrow> str_nat n = str_nat (n div 10) @ [char_of (48 + n mod 10)]"
  by (subst str_nat.simps) simp

lemma str_nat_inj: "str_nat a = str_nat b \<Longrightarrow> a = b"
proof (induction a arbitrary: b rule: str_nat.induct)
  case (1 n)
  show ?case
  proof (cases "n < 10")
    case small: True
    show ?thesis
    proof (cases "b < 10")
      case True
      from "1.prems" have "[char_of (48 + n)] = [char_of (48 + b) :: char]"
        by (simp only: str_nat_small [OF small] str_nat_small [OF True])
      then have "char_of (48 + n) = (char_of (48 + b) :: char)"
        by (simp only: list.inject)
      then show ?thesis using small True by (rule digit_inj)
    next
      case False
      from "1.prems" have "[char_of (48 + n)] = str_nat (b div 10) @ [char_of (48 + b mod 10)]"
        by (simp only: str_nat_small [OF small] str_nat_big [OF False])
      then have "length [char_of (48 + n) :: char]
          = length (str_nat (b div 10) @ [char_of (48 + b mod 10)])"
        by (rule arg_cong)
      then have "str_nat (b div 10) = []" by (simp only: length_append list.size length_0_conv) simp
      with str_nat_nonempty show ?thesis by blast
    qed
  next
    case big: False
    show ?thesis
    proof (cases "b < 10")
      case True
      from "1.prems" have "str_nat (n div 10) @ [char_of (48 + n mod 10)] = [char_of (48 + b)]"
        by (simp only: str_nat_small [OF True] str_nat_big [OF big])
      then have "length (str_nat (n div 10) @ [char_of (48 + n mod 10)])
          = length [char_of (48 + b) :: char]"
        by (rule arg_cong)
      then have "str_nat (n div 10) = []" by (simp only: length_append list.size length_0_conv) simp
      with str_nat_nonempty show ?thesis by blast
    next
      case False
      from "1.prems" have "str_nat (n div 10) @ [char_of (48 + n mod 10)]
          = str_nat (b div 10) @ [char_of (48 + b mod 10)]"
        by (simp only: str_nat_big [OF False] str_nat_big [OF big])
      then have e: "str_nat (n div 10) = str_nat (b div 10)"
        and d: "char_of (48 + n mod 10) = (char_of (48 + b mod 10) :: char)"
        by (simp_all only: append1_eq_conv)
      from "1.IH" [OF big e] have q: "n div 10 = b div 10" .
      from d have r: "n mod 10 = b mod 10" by (rule digit_inj) simp_all
      have "n = 10 * (n div 10) + n mod 10" by simp
      also have "\<dots> = 10 * (b div 10) + b mod 10" by (simp only: q r)
      also have "\<dots> = b" by simp
      finally show ?thesis .
    qed
  qed
qed

lemma mission_key_inj: "mission_key a = mission_key b \<Longrightarrow> a = b"
  using str_nat_inj [of "1000 + a" "1000 + b"] by (simp add: mission_key_def)

lemma loop_key: "''M'' @ str_int (1000 + (int n + 1)) = mission_key (Suc n)"
  by (simp add: str_int_def mission_key_def nat_add_distrib)

lemma new_mission_id:
  "map_of (new_mission n d) ''mission_id'' = Some (PyStr (mission_key (Suc n)))"
  using loop_key [of n]
  by (simp add: new_mission_def Let_def map_of_dict_set)

lemma dict_set_fresh: "k \<notin> fst ` set d \<Longrightarrow> dict_set d k v = d @ [(k, v)]"
  by (induction d) auto

lemma dense_keys_fresh:
  assumes "dense_keys db"
  shows "mission_key (Suc (length db)) \<notin> fst ` set db"
proof
  assume "mission_key (Suc (length db)) \<in> fst ` set db"
  then have "mission_key (Suc (length db)) \<in> set (map fst db)" by simp
  also have "set (map fst db) = set (map mission_key [1..<Suc (length db)])"
    using assms unfolding dense_keys_def by (rule arg_cong)
  also have "\<dots> = mission_key ` {1..<Suc (length db)}"
    by (simp del: upt_Suc)
  finally have "mission_key (Suc (length db)) \<in> mission_key ` {1..<Suc (length db)}" .
  then obtain k where "k < Suc (length db)" "mission_key (Suc (length db)) = mission_key k"
    by auto
  then show False using mission_key_inj by blast
qed

lemma dense_keys_snoc:
  assumes "dense_keys db"
  shows "dense_keys (db @ [(mission_key (Suc (length db)), m)])"
  using assms by (simp add: dense_keys_def)

lemma simulate_loop_dense:
  assumes "dense_keys db"
  shows "simulate_loop k rnd i db created =
           (db @ map (\<lambda>j. (mission_key (Suc (length db + j)), new_mission (length db + j) (rnd (i + j)))) [0..<k],
            created @ map (\<lambda>j. new_mission (length db + j) (rnd (i + j))) [0..<k])"
  using assms
proof (induction k arbitrary: i db created)
  case 0
  show ?case by simp
next
  case (Suc k)
  let ?m = "new_mission (length db) (rnd i)"
  let ?db = "db @ [(mission_key (Suc (length db)), ?m)]"
  have step: "dict_set db (''M'' @ str_int (1000 + (int (length db) + 1))) ?m = ?db"
    unfolding loop_key using dense_keys_fresh [OF Suc.prems] by (rule dict_set_fresh)
  have d: "dense_keys ?db" using Suc.prems by (rule dense_keys_snoc)
  have shift: "map f [0..<Suc k] = f 0 # map (\<lambda>j. f (Suc j)) [0..<k]" for f :: "nat \<Rightarrow> 'b"
    by (simp add: upt_conv_Cons map_Suc_upt [symmetric] del: upt_Suc)
  have "simulate_loop (Suc k) rnd i db created
          = simulate_loop k rnd (Suc i) ?db (created @ [?m])"
    unfolding simulate_loop.simps Let_def step ..
  also note Suc.IH [OF d]
  finally show ?case
    by (simp add: shift del: upt_Suc)
qed

lemma upt_shift: "map (\<lambda>j. f (Suc (c + j))) [0..<k] = map f [Suc c..<Suc (c + k)]"
proof -
  have e: "[Suc c..<Suc (c + k)] = map (\<lambda>j. j + Suc c) [0..<k]"
    unfolding map_add_upt by (simp add: add.commute del: upt_Suc)
  show ?thesis unfolding e by (simp add: comp_def add.commute del: upt_Suc)
qed

lemma dense_keys_append:
  assumes "dense_keys db"
  shows "dense_keys (db @ map (\<lambda>j. (mission_key (Suc (length db + j)), f j)) [0..<k])"
proof -
  have sp: "[Suc 0..<Suc (length db + k)]
      = [Suc 0..<Suc (length db)] @ [Suc (length db)..<Suc (length db + k)]"
    using upt_add_eq_append [of "Suc 0" "Suc (length db)" k] by (simp del: upt_Suc)
  have "map fst (map (\<lambda>j. (mission_key (Suc (length db + j)), f j)) [0..<k])
        = map mission_key [Suc (length db)..<Suc (length db + k)]"
    using upt_shift [of mission_key "length db" k] by (simp add: comp_def)
  then show ?thesis
    using assms unfolding dense_keys_def by (simp add: sp del: upt_Suc)
qed

lemma dense_keys_distinct:
  assumes "dense_keys db"
  shows "distinct (map fst db)"
proof -
  have "inj_on mission_key (set [1..<Suc (length db)])"
    by (rule inj_onI) (rule mission_key_inj)
  then have "distinct (map mission_key [1..<Suc (length db)])"
    by (simp add: distinct_map del: upt_Suc)
  then show ?thesis using assms by (simp only: dense_keys_def)
qed

lemma simulate_missions_dense:
  assumes "dense_keys (missions_db st)" "simulate_missions num user rnd now st = (run, st')"
  shows "missions_db st' = missions_db st @
           map (\<lambda>j. (mission_key (Suc (length (missions_db st) + j)),
                      new_mission (length (missions_db st) + j) (rnd j))) [0..<nat num]"
    and "map_of run ''missions'' = Some (PyList (map PyDict
           (map (\<lambda>j. new_mission (length (missions_db st) + j) (rnd j)) [0..<nat num])))"
  using assms(2) simulate_loop_dense [OF assms(1), of "nat num" rnd 0 "[]"]
  by (auto simp: simulate_missions_def Let_def)

lemma handle_missions_db:
  "missions_db (snd (handle L req st)) = missions_db st
   \<or> (\<exists>num user rnd now. snd (handle L req st) = snd (simulate_missions num user rnd now st))"
proof (cases req)
  case (Simulate token num rnd now)
  show ?thesis
  proof (cases "get_current_user L token st")
    case (Inl e)
    with Simulate show ?thesis by (simp add: protected_def)
  next
    case (Inr user)
    with Simulate have "snd (handle L req st) = snd (simulate_missions num user rnd now st)"
      by (simp add: protected_def split: prod.splits)
    then show ?thesis by blast
  qed
qed (auto simp: protected_def signup_def upload_data_def split: sum.splits prod.splits)

lemma handle_dense:
  assumes "dense_keys (missions_db st)"
  shows "dense_keys (missions_db (snd (handle L req st)))"
proof -
  from handle_missions_db [of L req st] show ?thesis
  proof
    assume "missions_db (snd (handle L req st)) = missions_db st"
    with assms show ?thesis by simp
  next
    assume "\<exists>num user rnd now. snd (handle L req st) = snd (simulate_missions num user rnd now st)"
    then obtain num user rnd now where
      e: "snd (handle L req st) = snd (simulate_missions num user rnd now st)" by blast
    have "simulate_missions num user rnd now st
        = (fst (simulate_missions num user rnd now st), snd (simulate_missions num user rnd now st))"
      by simp
    from simulate_missions_dense(1) [OF assms this] dense_keys_append [OF assms]
    show ?thesis unfolding e by simp
  qed
qed

lemma reachable_dense: "reachable L st \<Longrightarrow> dense_keys (missions_db st)"
proof (induction rule: reachable.induct)
  case reachable_init
  show ?case by (simp add: init_state_def dense_keys_def)
next
  case (reachable_step st req)
  then show ?case by (simp add: handle_dense)
qed

lemma handle_extends:
  assumes "dense_keys (missions_db st)"
  shows "\<exists>new. missions_db (snd (handle L req st)) = missions_db st @ new"
proof -
  from handle_missions_db [of L req st] show ?thesis
  proof
    assume "missions_db (snd (handle L req st)) = missions_db st"
    then show ?thesis by simp
  next
    assume "\<exists>num user rnd now. snd (handle L req st) = snd (simulate_missions num user rnd now st)"
    then obtain num user rnd now where
      e: "snd (handle L req st) = snd (simulate_missions num user rnd now st)" by blast
    have "simulate_missions num user rnd now st
        = (fst (simulate_missions num user rnd now st), snd (simulate_missions num user rnd now st))"
      by simp
    from simulate_missions_dense(1) [OF assms this]
    show ?thesis unfolding e by blast
  qed
qed

lemma serve_extends:
  assumes "dense_keys (missions_db st)"
  shows "dense_keys (missions_db (serve L reqs st))
       \<and> (\<exists>new. missions_db (serve L reqs st) = missions_db st @ new)"
  using assms
proof (induction reqs arbitrary: st)
  case Nil
  then show ?case by (simp add: serve_def)
next
  case (Cons req reqs)
  have d: "dense_keys (missions_db (snd (handle L req st)))"
    using Cons.prems by (rule handle_dense)
  from handle_extends [OF Cons.prems, of L req] obtain new1 where
    n1: "missions_db (snd (handle L req st)) = missions_db st @ new1" by blast
  from Cons.IH [OF d] obtain new2 where
    d2: "dense_keys (missions_db (serve L reqs (snd (handle L req st))))" and
    n2: "missions_db (serve L reqs (snd (handle L req st))) = missions_db (snd (handle L req st)) @ new2"
    by blast
  have s: "serve L (req # reqs) st = serve L reqs (snd (handle L req st))"
    by (simp add: serve_def)
  show ?case unfolding s using d2 n1 n2 by simp
qed

text \<open>
  Claim C8. From any state the process can reach, no sequence of public requests (signup,
  login, me, upload, mission status, query, simulate, simulations) changes a stored
  mission: the store after the requests is the store before them followed by the newly
  created entries, so every key that was bound is still bound to the same record, with the
  same status and in the same position.
\<close>

theorem stored_missions_never_mutated:
  assumes "reachable L st"
  shows "(\<exists>new. missions_db (serve L reqs st) = missions_db st @ new)
       \<and> (\<forall>mission_id mission.
            map_of (missions_db st) mission_id = Some mission \<longrightarrow>
            map_of (missions_db (serve L reqs st)) mission_id = Some mission)"
proof -
  from serve_extends [OF reachable_dense [OF assms], of L reqs] obtain new where
    n: "missions_db (serve L reqs st) = missions_db st @ new" by blast
  have "map_of (missions_db (serve L reqs st)) k = Some m"
    if "map_of (missions_db st) k = Some m" for k m
    unfolding n using that by (simp add: map_add_Some_iff)
  with n show ?thesis by blast
qed

text \<open>
  Claim C2. In a state the process can reach, with \<open>c\<close> missions stored, the missions that
  \<open>simulate_missions num\<close> generates carry the identifiers \<open>M<1000+c+1>\<close>, ...,
  \<open>M<1000+c+n>\<close> in the order of creation (\<open>n\<close> is \<open>num\<close>, or 0 for a negative \<open>num\<close>), each
  is stored under its identifier after the entries already there, and the keys of the store
  stay pairwise distinct: no identifier is allocated twice.
\<close>

theorem simulate_allocates_ids:
  assumes "reachable L st" "simulate_missions num user rnd now st = (run, st')"
  shows "\<exists>ms. map_of run ''missions'' = Some (PyList (map PyDict ms))
           \<and> length ms = nat num
           \<and> (\<forall>j<nat num.
                map_of (ms ! j) ''mission_id''
                  = Some (PyStr (''M'' @ str_nat (1000 + length (missions_db st) + j + 1)))
                \<and> map_of (missions_db st')
                     (''M'' @ str_nat (1000 + length (missions_db st) + j + 1))
                  = Some (ms ! j))
           \<and> map fst (missions_db st') =
               map fst (missions_db st)
                 @ map (\<lambda>j. ''M'' @ str_nat (1000 + length (missions_db st) + j + 1))
                     [0..<nat num]
           \<and> distinct (map fst (missions_db st'))"
proof -
  let ?c = "length (missions_db st)"
  let ?ms = "map (\<lambda>j. new_mission (?c + j) (rnd j)) [0..<nat num]"
  have d: "dense_keys (missions_db st)" using assms(1) by (rule reachable_dense)
  note db = simulate_missions_dense(1) [OF d assms(2)]
  note rn = simulate_missions_dense(2) [OF d assms(2)]
  have key: "''M'' @ str_nat (1000 + ?c + j + 1) = mission_key (Suc (?c + j))" for j
    by (simp add: mission_key_def add.assoc)
  have d': "dense_keys (missions_db st')"
    unfolding db using d by (rule dense_keys_append)
  have dist: "distinct (map fst (missions_db st'))" using d' by (rule dense_keys_distinct)
  have keys: "map fst (missions_db st') =
      map fst (missions_db st) @ map (\<lambda>j. ''M'' @ str_nat (1000 + ?c + j + 1)) [0..<nat num]"
    unfolding db key by (simp add: comp_def)
  have ids: "map_of (?ms ! j) ''mission_id'' = Some (PyStr (''M'' @ str_nat (1000 + ?c + j + 1)))"
    if "j < nat num" for j
    unfolding key using that by (simp add: new_mission_id)
  have look: "map_of (missions_db st') (''M'' @ str_nat (1000 + ?c + j + 1)) = Some (?ms ! j)"
    if "j < nat num" for j
  proof -
    have "(mission_key (Suc (?c + j)), new_mission (?c + j) (rnd j)) \<in> set (missions_db st')"
      unfolding db using that by auto
    with dist have "map_of (missions_db st') (mission_key (Suc (?c + j))) = Some (new_mission (?c + j) (rnd j))"
      by (rule map_of_is_SomeI)
    then show ?thesis unfolding key using that by simp
  qed
  have "length ?ms = nat num" by simp
  with rn ids look keys dist show ?thesis by blast
qed

lemma a_token_eq: "a_token = ''HS256.a@x.com.SUPER_SECRET_KEY_123''"
  by (simp add: a_token_def create_jwt_def jwt_encode_def toy_libs_def dict_get_def
        SECRET_KEY_def ALGORITHM_def)

lemma a_token_user:
  "get_current_user toy_libs a_token registered_state =
     Inr [(''first_name'', PyStr ''A''), (''last_name'', PyStr ''B''),
          (''email'', PyStr ''a@x.com''), (''password'', PyStr ''sss$pw1'')]"
  by (simp add: a_token_eq get_current_user_def decode_jwt_def toy_libs_def toy_decode_def
        SECRET_KEY_def ALGORITHM_def dict_get_def registered_state_eq)

lemma simulate_registered:
  "simulate_missions 1 user (\<lambda>i. sample_draws) ''2026-01-01T00:00:00'' registered_state =
     (sample_run, registered_state\<lparr>missions_db := [(''M1001'', sample_mission)],
                                    simulations_db := [sample_run]\<rparr>)"
  by (simp add: simulate_missions_def registered_state_eq Let_def new_mission_sample
        sample_run_def str_int_def str_nat.simps digit_chars)

lemma simulated_state_eq:
  "simulated_state = registered_state\<lparr>missions_db := [(''M1001'', sample_mission)],
                                       simulations_db := [sample_run]\<rparr>"
  by (simp add: simulated_state_def protected_def a_token_user simulate_registered)

lemma reachable_simulated: "reachable toy_libs simulated_state"
  unfolding simulated_state_def using reachable_registered by (rule reachable_step)

theorem stored_missions_never_mutated_witness:
  "reachable toy_libs simulated_state
   \<and> map_of (missions_db simulated_state) ''M1001'' = Some sample_mission
   \<and> (\<exists>new. missions_db
          (serve toy_libs
             [Simulate a_token 2 (\<lambda>i. sample_draws) ''2026-01-02T00:00:00'',
              QueryData a_token None (Some ''thermal'') None None,
              MissionStatus a_token ''M1001'',
              Simulations a_token]
             simulated_state) = missions_db simulated_state @ new)
   \<and> map_of (missions_db
          (serve toy_libs
             [Simulate a_token 2 (\<lambda>i. sample_draws) ''2026-01-02T00:00:00'',
              QueryData a_token None (Some ''thermal'') None None,
              MissionStatus a_token ''M1001'',
              Simulations a_token]
             simulated_state)) ''M1001'' = Some sample_mission"
proof -
  have l: "map_of (missions_db simulated_state) ''M1001'' = Some sample_mission"
    by (simp add: simulated_state_eq)
  note t = stored_missions_never_mutated [OF reachable_simulated,
    of "[Simulate a_token 2 (\<lambda>i. sample_draws) ''2026-01-02T00:00:00'',
         QueryData a_token None (Some ''thermal'') None None,
         MissionStatus a_token ''M1001'',
         Simulations a_token]"]
  from t have a: "\<exists>new. missions_db
          (serve toy_libs
             [Simulate a_token 2 (\<lambda>i. sample_draws) ''2026-01-02T00:00:00'',
              QueryData a_token None (Some ''thermal'') None None,
              MissionStatus a_token ''M1001'',
              Simulations a_token]
             simulated_state) = missions_db simulated_state @ new"
    by (rule conjunct1)
  from t l have b: "map_of (missions_db
          (serve toy_libs
             [Simulate a_token 2 (\<lambda>i. sample_draws) ''2026-01-02T00:00:00'',
              QueryData a_token None (Some ''thermal'') None None,
              MissionStatus a_token ''M1001'',
              Simulations a_token]
             simulated_state)) ''M1001'' = Some sample_mission"
    by (elim conjE allE impE) assumption+
  from reachable_simulated l a b show ?thesis by (intro conjI)
qed

theorem simulate_allocates_ids_witness:
  "reachable toy_libs simulated_state
   \<and> length (missions_db simulated_state) = 1
   \<and> (\<exists>ms. map_of (fst (simulate_missions 2 [] (\<lambda>i. sample_draws) ''2026-01-02T00:00:00''
                          simulated_state)) ''missions''
             = Some (PyList (map PyDict ms))
         \<and> length ms = 2
         \<and> map_of (ms ! 0) ''mission_id'' = Some (PyStr ''M1002'')
         \<and> map_of (ms ! 1) ''mission_id'' = Some (PyStr ''M1003'')
         \<and> map fst (missions_db (snd (simulate_missions 2 [] (\<lambda>i. sample_draws)
                                        ''2026-01-02T00:00:00'' simulated_state)))
             = [''M1001'', ''M1002'', ''M1003''])"
proof -
  let ?r = "simulate_missions 2 [] (\<lambda>i. sample_draws) ''2026-01-02T00:00:00'' simulated_state"
  have c: "length (missions_db simulated_state) = 1" and
    k: "map fst (missions_db simulated_state) = [''M1001'']"
    by (simp_all add: simulated_state_eq)
  have e: "?r = (fst ?r, snd ?r)" by simp
  have s: "str_nat 1002 = ''1002''" "str_nat 1003 = ''1003''"
    by (simp_all add: str_nat.simps digit_chars)
  from simulate_allocates_ids [OF reachable_simulated e] obtain ms where
    m: "map_of (fst ?r) ''missions'' = Some (PyList (map PyDict ms))" and
    n: "length ms = nat 2" and
    i: "\<forall>j<nat 2. map_of (ms ! j) ''mission_id''
          = Some (PyStr (''M'' @ str_nat (1000 + length (missions_db simulated_state) + j + 1)))
        \<and> map_of (missions_db (snd ?r))
             (''M'' @ str_nat (1000 + length (missions_db simulated_state) + j + 1))
          = Some (ms ! j)" and
    f: "map fst (missions_db (snd ?r)) =
          map fst (missions_db simulated_state)
            @ map (\<lambda>j. ''M'' @ str_nat (1000 + length (missions_db simulated_state) + j + 1))
                [0..<nat 2]"
    by blast
  from i have i0: "map_of (ms ! 0) ''mission_id'' = Some (PyStr ''M1002'')"
    and i1: "map_of (ms ! 1) ''mission_id'' = Some (PyStr ''M1003'')"
    by (simp_all add: c s)
  have ks: "map fst (missions_db (snd ?r)) = [''M1001'', ''M1002'', ''M1003'']"
    unfolding f k c by (simp add: s numeral_2_eq_2)
  have n2: "length ms = 2" using n by simp
  show ?thesis
    by (intro conjI exI [of _ ms]) (fact reachable_simulated c m n2 i0 i1 ks)+
qed

lemma comprehension_filter:
  "(\<And>x. x \<in> set xs \<Longrightarrow> c x = Inr (p x)) \<Longrightarrow> comprehension c xs = Inr (filter p xs)"
  by (induction xs) simp_all

lemma new_mission_typed: "mission_typed (new_mission n d)"
  unfolding mission_typed_def
  by (simp add: new_mission_def Let_def map_of_dict_set)

lemma reachable_typed:
  "reachable L st \<Longrightarrow> \<forall>m\<in>set (map snd (missions_db st)). mission_typed m"
proof (induction rule: reachable.induct)
  case reachable_init
  show ?case by (simp add: init_state_def)
next
  case (reachable_step st req)
  have d: "dense_keys (missions_db st)" using reachable_step.hyps by (rule reachable_dense)
  from handle_missions_db [of L req st] show ?case
  proof
    assume "missions_db (snd (handle L req st)) = missions_db st"
    with reachable_step.IH show ?thesis by simp
  next
    assume "\<exists>num user rnd now. snd (handle L req st) = snd (simulate_missions num user rnd now st)"
    then obtain num user rnd now where
      e: "snd (handle L req st) = snd (simulate_missions num user rnd now st)" by blast
    have "simulate_missions num user rnd now st
        = (fst (simulate_missions num user rnd now st), snd (simulate_missions num user rnd now st))"
      by simp
    from simulate_missions_dense(1) [OF d this] reachable_step.IH
    show ?thesis unfolding e by (auto simp: new_mission_typed)
  qed
qed

lemma date_cond_typed:
  "mission_typed m \<Longrightarrow> sd \<noteq> [] \<Longrightarrow> date_cond sd m = Inr (spec_keep (Some sd) None None None m)"
  by (auto simp: mission_typed_def date_cond_def spec_keep_def dict_get_def Let_def)

lemma date_empty_typed:
  "mission_typed m \<Longrightarrow> spec_keep (Some []) None None None m"
  by (auto simp: mission_typed_def spec_keep_def dict_get_def)

lemma sensor_cond_typed:
  "sty \<noteq> [] \<Longrightarrow> sensor_cond sty m = Inr (spec_keep None (Some sty) None None m)"
  by (simp add: sensor_cond_def spec_keep_def)

lemma lat_cond_typed:
  "mission_typed m \<Longrightarrow> gps_cond ''gps_lat'' x m = Inr (spec_keep None None (Some x) None m)"
  by (auto simp: mission_typed_def gps_cond_def spec_keep_def within_tolerance_def
        dict_get_def Let_def)

lemma lon_cond_typed:
  "mission_typed m \<Longrightarrow> gps_cond ''gps_lon'' x m = Inr (spec_keep None None None (Some x) m)"
  by (auto simp: mission_typed_def gps_cond_def spec_keep_def within_tolerance_def
        dict_get_def Let_def)

lemma filter_start_date_typed:
  assumes "\<forall>m\<in>set ms. mission_typed m"
  shows "filter_start_date sd ms = Inr (filter (spec_keep sd None None None) ms)"
proof (cases sd)
  case None
  then show ?thesis by (simp add: filter_start_date_def spec_keep_def)
next
  case (Some s)
  show ?thesis
  proof (cases "s = []")
    case True
    have "filter (spec_keep (Some []) None None None) ms = ms"
      using assms by (simp add: date_empty_typed)
    with Some True show ?thesis by (simp add: filter_start_date_def)
  next
    case False
    have "comprehension (date_cond s) ms = Inr (filter (spec_keep (Some s) None None None) ms)"
      using assms False by (intro comprehension_filter date_cond_typed) auto
    with Some False show ?thesis by (simp add: filter_start_date_def)
  qed
qed

lemma filter_sensor_type_typed:
  "filter_sensor_type sty ms = Inr (filter (spec_keep None sty None None) ms)"
proof (cases sty)
  case None
  then show ?thesis by (simp add: filter_sensor_type_def spec_keep_def)
next
  case (Some s)
  show ?thesis
  proof (cases "s = []")
    case True
    with Some show ?thesis by (simp add: filter_sensor_type_def spec_keep_def)
  next
    case False
    have "comprehension (sensor_cond s) ms = Inr (filter (spec_keep None (Some s) None None) ms)"
      using False by (intro comprehension_filter sensor_cond_typed)
    with Some False show ?thesis by (simp add: filter_sensor_type_def)
  qed
qed

lemma filter_lat_typed:
  assumes "\<forall>m\<in>set ms. mission_typed m"
  shows "filter_lat lat ms = Inr (filter (spec_keep None None lat None) ms)"
proof (cases lat)
  case None
  then show ?thesis by (simp add: filter_lat_def spec_keep_def)
next
  case (Some x)
  have "comprehension (gps_cond ''gps_lat'' x) ms = Inr (filter (spec_keep None None (Some x) None) ms)"
    using assms by (intro comprehension_filter lat_cond_typed) auto
  with Some show ?thesis by (simp add: filter_lat_def)
qed

lemma filter_lon_typed:
  assumes "\<forall>m\<in>set ms. mission_typed m"
  shows "filter_lon lon ms = Inr (filter (spec_keep None None None lon) ms)"
proof (cases lon)
  case None
  then show ?thesis by (simp add: filter_lon_def spec_keep_def)
next
  case (Some x)
  have "comprehension (gps_cond ''gps_lon'' x) ms = Inr (filter (spec_keep None None None (Some x)) ms)"
    using assms by (intro comprehension_filter lon_cond_typed) auto
  with Some show ?thesis by (simp add: filter_lon_def)
qed

lemma spec_keep_split:
  "spec_keep sd sty lat lon m =
     (spec_keep sd None None None m \<and> spec_keep None sty None None m
      \<and> spec_keep None None lat None m \<and> spec_keep None None None lon m)"
  by (simp add: spec_keep_def)

lemma query_data_typed:
  assumes "\<forall>m\<in>set (map snd (missions_db st)). mission_typed m"
  shows "query_data sd sty lat lon user st =
           Inr (query_response sd sty lat lon
                  (filter (spec_keep sd sty lat lon) (map snd (missions_db st))))"
proof -
  let ?ms = "map snd (missions_db st)"
  let ?a = "filter (spec_keep sd None None None) ?ms"
  let ?b = "filter (spec_keep None sty None None) ?a"
  let ?c = "filter (spec_keep None None lat None) ?b"
  let ?d = "filter (spec_keep None None None lon) ?c"
  have ty: "\<forall>m\<in>set ?a. mission_typed m" "\<forall>m\<in>set ?b. mission_typed m"
    "\<forall>m\<in>set ?c. mission_typed m"
    using assms by auto
  have a: "filter_start_date sd ?ms = Inr ?a" using assms by (rule filter_start_date_typed)
  have b: "filter_sensor_type sty ?a = Inr ?b" by (rule filter_sensor_type_typed)
  have c: "filter_lat lat ?b = Inr ?c" using ty(2) by (rule filter_lat_typed)
  have d: "filter_lon lon ?c = Inr ?d" using ty(3) by (rule filter_lon_typed)
  have e: "filter (spec_keep sd sty lat lon) ?ms =
      filter (\<lambda>m. spec_keep sd None None None m \<and> spec_keep None sty None None m
                \<and> spec_keep None None lat None m \<and> spec_keep None None None lon m) ?ms"
    by (rule filter_cong [OF refl]) (rule spec_keep_split)
  have f: "?d = filter (spec_keep sd sty lat lon) ?ms"
    unfolding e by (simp add: conj_ac)
  have "query_data sd sty lat lon user st = Inr (query_response sd sty lat lon ?d)"
    by (simp only: query_data_def exc_bind_def a b c d sum.case)
  then show ?thesis by (simp only: f)
qed

section \<open>Querying the mission store\<close>

text \<open>
  Claim C4, as the code has it. In every state the process can reach and for every
  combination of the four options, \<open>query_data\<close> returns, in the order of the store, exactly
  the missions that satisfy all supplied predicates (timestamp at least \<open>start_date\<close> in
  the lexicographic order, sensor type equal to \<open>sensor_type\<close>, latitude and longitude
  within 0.001 of \<open>lat\<close> and \<open>lon\<close>), where an absent option, and also an empty
  \<open>sensor_type\<close> string, imposes no constraint; \<open>total_found\<close> is the number of results, the
  four options are echoed under \<open>filters_applied\<close>, and without any option the whole store
  is returned. The distance is the one that the code computes in double precision: the
  float difference of the stored coordinate and the option, in absolute value, against the
  double nearest to 0.001; \<open>lat\<close> and \<open>lon\<close> are finite floats.
\<close>

theorem query_data_filters:
  assumes "reachable L st"
  shows "query_data start_date sensor_type lat lon user st =
           Inr [(''filters_applied'',
                   PyDict [(''start_date'', opt_str start_date),
                           (''sensor_type'', opt_str sensor_type),
                           (''lat'', opt_float lat),
                           (''lon'', opt_float lon)]),
                (''total_found'',
                   PyInt (int (length (filter (spec_keep start_date sensor_type lat lon)
                                         (map snd (missions_db st)))))),
                (''results'',
                   PyList (map PyDict (filter (spec_keep start_date sensor_type lat lon)
                                         (map snd (missions_db st)))))]
       \<and> query_data None None None None user st =
           Inr (query_response None None None None (map snd (missions_db st)))"
proof -
  note ty = reachable_typed [OF assms]
  have "filter (spec_keep None None None None) (map snd (missions_db st)) = map snd (missions_db st)"
    by (simp add: spec_keep_def)
  with query_data_typed [OF ty, of None None None None user]
       query_data_typed [OF ty, of start_date sensor_type lat lon user]
  show ?thesis by (simp add: query_response_def)
qed

lemma simulated_missions: "map snd (missions_db simulated_state) = [sample_mission]"
  by (simp add: simulated_state_eq)

theorem query_data_filters_witness:
  "reachable toy_libs simulated_state
   \<and> query_data (Some ''2025-01-01'') (Some ''thermal'') (Some lat_4_2745) None []
         simulated_state =
       Inr [(''filters_applied'',
               PyDict [(''start_date'', PyStr ''2025-01-01''),
                       (''sensor_type'', PyStr ''thermal''),
                       (''lat'', PyFloat lat_4_2745),
                       (''lon'', PyNone)]),
            (''total_found'', PyInt 1),
            (''results'', PyList [PyDict sample_mission])]
   \<and> query_data (Some ''2025-01-01'') (Some ''lidar'') (Some lat_4_2745) None []
         simulated_state =
       Inr [(''filters_applied'',
               PyDict [(''start_date'', PyStr ''2025-01-01''),
                       (''sensor_type'', PyStr ''lidar''),
                       (''lat'', PyFloat lat_4_2745),
                       (''lon'', PyNone)]),
            (''total_found'', PyInt 0),
            (''results'', PyList [])]
   \<and> query_data None None (Some lat_4_273129) None [] simulated_state =
       Inr [(''filters_applied'',
               PyDict [(''start_date'', PyNone),
                       (''sensor_type'', PyNone),
                       (''lat'', PyFloat lat_4_273129),
                       (''lon'', PyNone)]),
            (''total_found'', PyInt 0),
            (''results'', PyList [])]"
proof -
  have k1: "filter (spec_keep (Some ''2025-01-01'') (Some ''thermal'') (Some lat_4_2745) None)
               [sample_mission] = [sample_mission]"
    by (simp add: spec_keep_def dict_get_def sample_mission_def sample_within)
  have k2: "filter (spec_keep (Some ''2025-01-01'') (Some ''lidar'') (Some lat_4_2745) None)
               [sample_mission] = []"
    by (simp add: spec_keep_def dict_get_def sample_mission_def)
  have k3: "filter (spec_keep None None (Some lat_4_273129) None) [sample_mission] = []"
    by (simp add: spec_keep_def dict_get_def sample_mission_def sample_within)
  from query_data_filters [OF reachable_simulated,
         of "Some ''2025-01-01''" "Some ''thermal''" "Some lat_4_2745" None "[]"]
  have a: "query_data (Some ''2025-01-01'') (Some ''thermal'') (Some lat_4_2745) None []
         simulated_state =
       Inr [(''filters_applied'',
               PyDict [(''start_date'', PyStr ''2025-01-01''),
                       (''sensor_type'', PyStr ''thermal''),
                       (''lat'', PyFloat lat_4_2745),
                       (''lon'', PyNone)]),
            (''total_found'', PyInt 1),
            (''results'', PyList [PyDict sample_mission])]"
    unfolding simulated_missions k1 by (simp add: opt_str_def opt_float_def)
  from query_data_filters [OF reachable_simulated,
         of "Some ''2025-01-01''" "Some ''lidar''" "Some lat_4_2745" None "[]"]
  have b: "query_data (Some ''2025-01-01'') (Some ''lidar'') (Some lat_4_2745) None []
         simulated_state =
       Inr [(''filters_applied'',
               PyDict [(''start_date'', PyStr ''2025-01-01''),
                       (''sensor_type'', PyStr ''lidar''),
                       (''lat'', PyFloat lat_4_2745),
                       (''lon'', PyNone)]),
            (''total_found'', PyInt 0),
            (''results'', PyList [])]"
    unfolding simulated_missions k2 by (simp add: opt_str_def opt_float_def)
  from query_data_filters [OF reachable_simulated, of None None "Some lat_4_273129" None "[]"]
  have c: "query_data None None (Some lat_4_273129) None [] simulated_state =
       Inr [(''filters_applied'',
               PyDict [(''start_date'', PyNone),
                       (''sensor_type'', PyNone),
                       (''lat'', PyFloat lat_4_273129),
                       (''lon'', PyNone)]),
            (''total_found'', PyInt 0),
            (''results'', PyList [])]"
    unfolding simulated_missions k3 by (simp add: opt_str_def opt_float_def)
  from reachable_simulated a b c show ?thesis by (intro conjI)
qed

text \<open>
  Claim C4 as stated fails for a supplied but empty \<open>sensor_type\<close>: the query then returns
  the stored thermal mission, whose sensor type is not the empty string.
\<close>

theorem query_empty_sensor_type_ignored:
  "query_data None (Some []) None None [] simulated_state =
     Inr [(''filters_applied'',
             PyDict [(''start_date'', PyNone), (''sensor_type'', PyStr []),
                     (''lat'', PyNone), (''lon'', PyNone)]),
          (''total_found'', PyInt 1),
          (''results'', PyList [PyDict sample_mission])]
   \<and> dict_get sample_mission ''sensor_type'' = PyStr ''thermal''"
  by (simp add: query_data_def exc_bind_def filter_start_date_def filter_sensor_type_def
        filter_lat_def filter_lon_def query_response_def opt_str_def opt_float_def
        simulated_missions dict_get_def sample_mission_def)

lemma apply_stages_filters:
  assumes "\<And>f ys. f \<in> set fs \<Longrightarrow> set ys \<subseteq> set xs \<Longrightarrow> f ys = Inr (filter (k f) ys)"
  shows "apply_stages fs xs = Inr (filter (\<lambda>m. \<forall>f\<in>set fs. k f m) xs)"
  using assms
proof (induction fs arbitrary: xs)
  case Nil
  show ?case by simp
next
  case (Cons f fs)
  have f: "f xs = Inr (filter (k f) xs)" by (rule Cons.prems) simp_all
  have "apply_stages fs (filter (k f) xs)
      = Inr (filter (\<lambda>m. \<forall>g\<in>set fs. k g m) (filter (k f) xs))"
  proof (rule Cons.IH)
    fix g ys
    assume "g \<in> set fs" "set ys \<subseteq> set (filter (k f) xs)"
    then show "g ys = Inr (filter (k g) ys)" by (intro Cons.prems) auto
  qed
  then show ?case by (simp add: f exc_bind_def conj_commute)
qed

lemma stage_keep:
  assumes "\<And>zs. set zs \<subseteq> set xs \<Longrightarrow> f zs = Inr (filter p zs)" "set ys \<subseteq> set xs"
  shows "f ys = Inr (filter (\<lambda>m. f [m] = Inr [m]) ys)"
proof -
  have "(f [m] = Inr [m]) = p m" if "m \<in> set ys" for m
  proof -
    have "f [m] = Inr (filter p [m])" using that assms(2) by (intro assms(1)) auto
    then show ?thesis by simp
  qed
  then have "filter (\<lambda>m. f [m] = Inr [m]) ys = filter p ys"
    by (intro filter_cong) auto
  with assms(1) [OF assms(2)] show ?thesis by simp
qed

lemma query_stages_keep:
  assumes "\<forall>m\<in>set xs. mission_typed m"
    and "f \<in> set (query_stages sd sty lat lon)" "set ys \<subseteq> set xs"
  shows "f ys = Inr (filter (\<lambda>m. f [m] = Inr [m]) ys)"
proof -
  have ty: "\<forall>m\<in>set zs. mission_typed m" if "set zs \<subseteq> set xs" for zs
    using assms(1) that by auto
  from assms(2) consider "f = filter_start_date sd" | "f = filter_sensor_type sty"
    | "f = filter_lat lat" | "f = filter_lon lon"
    by (auto simp: query_stages_def)
  then show ?thesis
  proof cases
    case 1
    show ?thesis unfolding 1
      by (rule stage_keep [OF _ assms(3)]) (rule filter_start_date_typed [OF ty])
  next
    case 2
    show ?thesis unfolding 2
      by (rule stage_keep [OF _ assms(3)]) (rule filter_sensor_type_typed)
  next
    case 3
    show ?thesis unfolding 3
      by (rule stage_keep [OF _ assms(3)]) (rule filter_lat_typed [OF ty])
  next
    case 4
    show ?thesis unfolding 4
      by (rule stage_keep [OF _ assms(3)]) (rule filter_lon_typed [OF ty])
  qed
qed

lemma apply_query_stages_typed:
  assumes "\<forall>m\<in>set ms. mission_typed m"
  shows "apply_stages (query_stages sd sty lat lon) ms = Inr (filter (spec_keep sd sty lat lon) ms)"
proof -
  let ?a = "filter (spec_keep sd None None None) ms"
  let ?b = "filter (spec_keep None sty None None) ?a"
  let ?c = "filter (spec_keep None None lat None) ?b"
  let ?d = "filter (spec_keep None None None lon) ?c"
  have ty: "\<forall>m\<in>set ?b. mission_typed m" "\<forall>m\<in>set ?c. mission_typed m"
    using assms by auto
  have a: "filter_start_date sd ms = Inr ?a" using assms by (rule filter_start_date_typed)
  have b: "filter_sensor_type sty ?a = Inr ?b" by (rule filter_sensor_type_typed)
  have c: "filter_lat lat ?b = Inr ?c" using ty(1) by (rule filter_lat_typed)
  have d: "filter_lon lon ?c = Inr ?d" using ty(2) by (rule filter_lon_typed)
  have e: "filter (spec_keep sd sty lat lon) ms =
      filter (\<lambda>m. spec_keep sd None None None m \<and> spec_keep None sty None None m
                \<and> spec_keep None None lat None m \<and> spec_keep None None None lon m) ms"
    by (rule filter_cong [OF refl]) (rule spec_keep_split)
  have f: "?d = filter (spec_keep sd sty lat lon) ms"
    unfolding e by (simp add: conj_ac)
  have "apply_stages (query_stages sd sty lat lon) ms = Inr ?d"
    by (simp only: query_stages_def apply_stages.simps exc_bind_def a b c d sum.case)
  then show ?thesis by (simp only: f)
qed

lemma apply_stages_any_order:
  assumes "\<forall>m\<in>set ms. mission_typed m"
    and "set stages = set (query_stages sd sty lat lon)"
  shows "apply_stages stages ms = Inr (filter (spec_keep sd sty lat lon) ms)"
proof -
  have "apply_stages stages ms = Inr (filter (\<lambda>m. \<forall>f\<in>set stages. f [m] = Inr [m]) ms)"
  proof (rule apply_stages_filters)
    fix f ys
    assume "f \<in> set stages" "set ys \<subseteq> set ms"
    then show "f ys = Inr (filter (\<lambda>m. f [m] = Inr [m]) ys)"
      using assms by (intro query_stages_keep [of ms _ sd sty lat lon]) auto
  qed
  also have "\<dots> = Inr (filter (\<lambda>m. \<forall>f\<in>set (query_stages sd sty lat lon). f [m] = Inr [m]) ms)"
    by (simp only: assms(2))
  also have "\<dots> = apply_stages (query_stages sd sty lat lon) ms"
  proof (rule apply_stages_filters [symmetric])
    fix f ys
    assume "f \<in> set (query_stages sd sty lat lon)" "set ys \<subseteq> set ms"
    then show "f ys = Inr (filter (\<lambda>m. f [m] = Inr [m]) ys)"
      using assms(1) by (intro query_stages_keep [of ms _ sd sty lat lon]) auto
  qed
  also note apply_query_stages_typed [OF assms(1)]
  finally show ?thesis .
qed

text \<open>
  Claim C5. In every state the process can reach, the results of a query that supplies
  several options are the intersection of the results of the four queries that supply each
  option alone, kept in the order of the store; and running the four filter blocks of
  \<open>query_data\<close> in any order, or any number of times, gives the same results.
\<close>

theorem query_filters_intersect:
  assumes "reachable L st"
  shows "\<exists>rs r1 r2 r3 r4.
           query_data start_date sensor_type lat lon user st
             = Inr (query_response start_date sensor_type lat lon rs)
         \<and> query_data start_date None None None user st
             = Inr (query_response start_date None None None r1)
         \<and> query_data None sensor_type None None user st
             = Inr (query_response None sensor_type None None r2)
         \<and> query_data None None lat None user st
             = Inr (query_response None None lat None r3)
         \<and> query_data None None None lon user st
             = Inr (query_response None None None lon r4)
         \<and> set rs = set r1 \<inter> set r2 \<inter> set r3 \<inter> set r4
         \<and> rs = filter (\<lambda>m. m \<in> set r1 \<and> m \<in> set r2 \<and> m \<in> set r3 \<and> m \<in> set r4)
                   (map snd (missions_db st))
         \<and> (\<forall>stages. set stages = set (query_stages start_date sensor_type lat lon) \<longrightarrow>
               apply_stages stages (map snd (missions_db st)) = Inr rs)"
proof -
  let ?ms = "map snd (missions_db st)"
  let ?rs = "filter (spec_keep start_date sensor_type lat lon) ?ms"
  let ?r1 = "filter (spec_keep start_date None None None) ?ms"
  let ?r2 = "filter (spec_keep None sensor_type None None) ?ms"
  let ?r3 = "filter (spec_keep None None lat None) ?ms"
  let ?r4 = "filter (spec_keep None None None lon) ?ms"
  note ty = reachable_typed [OF assms]
  note sp = spec_keep_split [of start_date sensor_type lat lon]
  have q: "query_data start_date sensor_type lat lon user st
             = Inr (query_response start_date sensor_type lat lon ?rs)"
    and q1: "query_data start_date None None None user st
             = Inr (query_response start_date None None None ?r1)"
    and q2: "query_data None sensor_type None None user st
             = Inr (query_response None sensor_type None None ?r2)"
    and q3: "query_data None None lat None user st
             = Inr (query_response None None lat None ?r3)"
    and q4: "query_data None None None lon user st
             = Inr (query_response None None None lon ?r4)"
    by (rule query_data_typed [OF ty])+
  have s: "set ?rs = set ?r1 \<inter> set ?r2 \<inter> set ?r3 \<inter> set ?r4"
    by (auto simp: sp)
  have l: "?rs = filter (\<lambda>m. m \<in> set ?r1 \<and> m \<in> set ?r2 \<and> m \<in> set ?r3 \<and> m \<in> set ?r4) ?ms"
    by (rule filter_cong [OF refl]) (auto simp: sp)
  have o: "\<forall>stages. set stages = set (query_stages start_date sensor_type lat lon) \<longrightarrow>
               apply_stages stages ?ms = Inr ?rs"
    using apply_stages_any_order [OF ty] by blast
  show ?thesis
    by (intro exI [of _ ?rs] exI [of _ ?r1] exI [of _ ?r2] exI [of _ ?r3] exI [of _ ?r4] conjI)
       (fact q q1 q2 q3 q4 s l o)+
qed

lemma query_response_inject:
  "query_response a b c d rs = query_response a b c d rs' \<Longrightarrow> rs = rs'"
proof -
  assume "query_response a b c d rs = query_response a b c d rs'"
  then have "map PyDict rs = map PyDict rs'" by (simp add: query_response_def)
  moreover have "inj PyDict" by (rule injI) simp
  ultimately show ?thesis by (simp only: inj_map_eq_map)
qed

theorem query_filters_intersect_witness:
  "reachable toy_libs simulated_state
   \<and> query_data (Some ''2025-01-01'') (Some ''lidar'') (Some lat_4_2745) None [] simulated_state
       = Inr (query_response (Some ''2025-01-01'') (Some ''lidar'') (Some lat_4_2745) None [])
   \<and> query_data (Some ''2025-01-01'') None None None [] simulated_state
       = Inr (query_response (Some ''2025-01-01'') None None None [sample_mission])
   \<and> query_data None (Some ''lidar'') None None [] simulated_state
       = Inr (query_response None (Some ''lidar'') None None [])
   \<and> query_data None None (Some lat_4_2745) None [] simulated_state
       = Inr (query_response None None (Some lat_4_2745) None [sample_mission])
   \<and> apply_stages
         [filter_lon None, filter_lat (Some lat_4_2745), filter_sensor_type (Some ''lidar''),
          filter_start_date (Some ''2025-01-01'')]
         (map snd (missions_db simulated_state))
       = Inr []"
proof -
  let ?sd = "Some ''2025-01-01''" and ?sty = "Some ''lidar''" and ?lat = "Some lat_4_2745"
  from query_filters_intersect [OF reachable_simulated, of ?sd ?sty ?lat None "[]"]
  obtain rs r1 r2 r3 r4 where
    q: "query_data ?sd ?sty ?lat None [] simulated_state = Inr (query_response ?sd ?sty ?lat None rs)"
    and q1: "query_data ?sd None None None [] simulated_state = Inr (query_response ?sd None None None r1)"
    and q2: "query_data None ?sty None None [] simulated_state = Inr (query_response None ?sty None None r2)"
    and q3: "query_data None None ?lat None [] simulated_state = Inr (query_response None None ?lat None r3)"
    and s: "rs = filter (\<lambda>m. m \<in> set r1 \<and> m \<in> set r2 \<and> m \<in> set r3 \<and> m \<in> set r4)
                   (map snd (missions_db simulated_state))"
    and o: "\<forall>stages. set stages = set (query_stages ?sd ?sty ?lat None) \<longrightarrow>
               apply_stages stages (map snd (missions_db simulated_state)) = Inr rs"
    by blast
  note ty = reachable_typed [OF reachable_simulated]
  have k1: "filter (spec_keep ?sd None None None) [sample_mission] = [sample_mission]"
    and k2: "filter (spec_keep None ?sty None None) [sample_mission] = []"
    and k3: "filter (spec_keep None None ?lat None) [sample_mission] = [sample_mission]"
    by (simp_all add: spec_keep_def dict_get_def sample_mission_def sample_within)
  have r1: "r1 = [sample_mission]"
    using q1 query_data_typed [OF ty, of ?sd None None None "[]"]
    unfolding simulated_missions k1 by (auto dest: query_response_inject)
  have r2: "r2 = []"
    using q2 query_data_typed [OF ty, of None ?sty None None "[]"]
    unfolding simulated_missions k2 by (auto dest: query_response_inject)
  have r3: "r3 = [sample_mission]"
    using q3 query_data_typed [OF ty, of None None ?lat None "[]"]
    unfolding simulated_missions k3 by (auto dest: query_response_inject)
  have rs: "rs = []" unfolding s r2 by simp
  have "set [filter_lon None, filter_lat ?lat, filter_sensor_type ?sty, filter_start_date ?sd]
      = set (query_stages ?sd ?sty ?lat None)"
    unfolding query_stages_def by (simp add: insert_commute)
  with o have st: "apply_stages
         [filter_lon None, filter_lat ?lat, filter_sensor_type ?sty, filter_start_date ?sd]
         (map snd (missions_db simulated_state)) = Inr rs"
    by (elim allE impE) assumption+
  show ?thesis
    using reachable_simulated q q1 q2 q3 st unfolding rs r1 r2 r3 by (intro conjI)
qed

section \<open>Bounds of the rounding to double precision\<close>

lemma divide_and_round_upper:
  assumes "0 < b" "a \<le> h * b"
  shows "divide_and_round a b \<le> h"
proof -
  have q: "a div b \<le> h"
    using assms by (metis div_mult_self_is_m zdiv_mono1 mult.commute nonzero_mult_div_cancel_right less_irrefl)
  show ?thesis
  proof (cases "a div b = h")
    case True
    have "a = b * (a div b) + a mod b" by simp
    then have "a mod b = a - b * h" using True by simp
    moreover have "0 \<le> a mod b" using assms(1) by simp
    ultimately have "a mod b = 0" using assms(2) by (simp add: mult.commute)
    then show ?thesis using assms(1) True by (simp add: divide_and_round_def Let_def)
  next
    case False
    with q have "a div b + 1 \<le> h" by simp
    then show ?thesis using q by (simp add: divide_and_round_def Let_def)
  qed
qed

lemma divide_and_round_lower:
  assumes "0 < b" "l * b \<le> a"
  shows "l \<le> divide_and_round a b"
proof -
  have "l \<le> a div b"
    using assms by (metis zdiv_mono1 nonzero_mult_div_cancel_right less_irrefl)
  then show ?thesis by (simp add: divide_and_round_def Let_def)
qed

lemma float_exponent_less:
  assumes "x \<noteq> 0" "\<bar>x\<bar> < 2 ^ k"
  shows "float_exponent x < int k"
proof -
  obtain a b where q: "quotient_of x = (a, b)" by (cases "quotient_of x")
  have b: "0 < b" using q by (rule quotient_of_denom_pos)
  have x: "x = of_int a / of_int b" using q by (rule quotient_of_div)
  have a: "0 < \<bar>a\<bar>" using assms(1) x by auto
  have "\<bar>x\<bar> = of_int \<bar>a\<bar> / of_int b" using b x by simp
  then have "of_int \<bar>a\<bar> / of_int b < (2::rat) ^ k" using assms(2) by simp
  then have "(of_int \<bar>a\<bar> :: rat) < 2 ^ k * of_int b"
    using b by (simp add: pos_divide_less_eq)
  then have "(of_int \<bar>a\<bar> :: rat) < of_int (2 ^ k * b)" by simp
  then have lt: "\<bar>a\<bar> < 2 ^ k * b" by (simp only: of_int_less_iff)
  let ?d = "bitlen \<bar>a\<bar> - bitlen b"
  have ba: "2 ^ nat (bitlen \<bar>a\<bar> - 1) \<le> \<bar>a\<bar>" using bitlen_bounds [OF a] by simp
  have bb: "b < 2 ^ nat (bitlen b)" using bitlen_bounds [OF b] by simp
  have pa: "1 \<le> bitlen \<bar>a\<bar>" using a by (simp add: bitlen_def floorlog_def)
  have pb: "0 \<le> bitlen b" by (rule bitlen_nonneg)
  have "(2::int) ^ k * b < 2 ^ k * 2 ^ nat (bitlen b)"
    using bb by (intro mult_strict_left_mono) simp_all
  with lt ba have "(2::int) ^ nat (bitlen \<bar>a\<bar> - 1) < 2 ^ k * 2 ^ nat (bitlen b)"
    by linarith
  then have "(2::int) ^ nat (bitlen \<bar>a\<bar> - 1) < 2 ^ (k + nat (bitlen b))"
    by (simp only: power_add)
  then have "nat (bitlen \<bar>a\<bar> - 1) < k + nat (bitlen b)"
    by (simp only: power_strict_increasing_iff [of 2] one_less_numeral_iff semiring_norm)
  then have dk: "?d \<le> int k" using pa pb by linarith
  have ge: "?d < int k" if "0 \<le> ?d" "b * 2 ^ nat ?d \<le> \<bar>a\<bar>"
  proof -
    from that(2) lt have "b * 2 ^ nat ?d < b * 2 ^ k" by (simp add: mult.commute)
    then have "(2::int) ^ nat ?d < 2 ^ k" using b by simp
    then have "nat ?d < k"
      by (simp only: power_strict_increasing_iff [of 2] one_less_numeral_iff semiring_norm)
    then show ?thesis using that(1) by linarith
  qed
  show ?thesis
    unfolding float_exponent_def q prod.case Let_def
    using dk ge by (auto split: if_splits)
qed

text \<open>Rounding keeps a number between two doubles that enclose it: \<open>l / 2 ^ n\<close> and
  \<open>h / 2 ^ n\<close> are doubles at the magnitude of \<open>x\<close>.\<close>

lemma nearest_double_bounds:
  assumes lo: "of_int l / 2 ^ n \<le> x" and hi: "x \<le> of_int h / 2 ^ n"
    and mag: "\<bar>x\<bar> < 2 ^ k" and kn: "k + n \<le> 52"
  shows "of_int l / 2 ^ n \<le> nearest_double x \<and> nearest_double x \<le> of_int h / 2 ^ n"
proof (cases "x = 0")
  case True
  then show ?thesis using lo hi by (simp add: nearest_double_def)
next
  case False
  obtain a b where q: "quotient_of x = (a, b)" by (cases "quotient_of x")
  have b: "0 < b" using q by (rule quotient_of_denom_pos)
  have x: "x = of_int a / of_int b" using q by (rule quotient_of_div)
  have e: "float_exponent x < int k" using False mag by (rule float_exponent_less)
  define j where "j = nat (52 - float_exponent x) - n"
  have m: "nat (52 - float_exponent x) = n + j" and neg: "\<not> 52 \<le> float_exponent x"
    using e kn by (simp_all add: j_def)
  let ?r = "divide_and_round (a * 2 ^ (n + j)) b"
  have nd: "nearest_double x = of_int ?r / 2 ^ (n + j)"
    using False neg by (simp add: nearest_double_def q Let_def m)
  have p: "(0::rat) < 2 ^ (n + j)" by simp
  have "l * 2 ^ j * b \<le> a * 2 ^ (n + j)"
  proof -
    have "of_int l / 2 ^ n \<le> (of_int a / of_int b :: rat)" using lo x by simp
    then have "(of_int l * of_int b :: rat) \<le> of_int a * 2 ^ n" using b by (simp add: field_simps)
    then have "(of_int (l * b) :: rat) \<le> of_int (a * 2 ^ n)" by simp
    then have "l * b \<le> a * 2 ^ n" by (simp only: of_int_le_iff)
    then have "(l * b) * 2 ^ j \<le> (a * 2 ^ n) * 2 ^ j" by (intro mult_right_mono) simp_all
    then show ?thesis by (simp add: power_add mult_ac)
  qed
  then have "l * 2 ^ j \<le> ?r" using b by (intro divide_and_round_lower)
  then have "(of_int (l * 2 ^ j) :: rat) \<le> of_int ?r" by (simp only: of_int_le_iff)
  then have "(of_int (l * 2 ^ j) :: rat) / 2 ^ (n + j) \<le> of_int ?r / 2 ^ (n + j)"
    using p by (simp only: divide_le_cancel) simp
  moreover have "(of_int (l * 2 ^ j) :: rat) / 2 ^ (n + j) = of_int l / 2 ^ n"
    by (simp add: power_add)
  ultimately have L: "of_int l / 2 ^ n \<le> nearest_double x" unfolding nd by simp
  have "a * 2 ^ (n + j) \<le> h * 2 ^ j * b"
  proof -
    have "(of_int a / of_int b :: rat) \<le> of_int h / 2 ^ n" using hi x by simp
    then have "(of_int a * 2 ^ n :: rat) \<le> of_int h * of_int b" using b by (simp add: field_simps)
    then have "(of_int (a * 2 ^ n) :: rat) \<le> of_int (h * b)" by simp
    then have "a * 2 ^ n \<le> h * b" by (simp only: of_int_le_iff)
    then have "(a * 2 ^ n) * 2 ^ j \<le> (h * b) * 2 ^ j" by (intro mult_right_mono) simp_all
    then show ?thesis by (simp add: power_add mult_ac)
  qed
  then have "?r \<le> h * 2 ^ j" using b by (intro divide_and_round_upper)
  then have "(of_int ?r :: rat) \<le> of_int (h * 2 ^ j)" by (simp only: of_int_le_iff)
  then have "(of_int ?r :: rat) / 2 ^ (n + j) \<le> of_int (h * 2 ^ j) / 2 ^ (n + j)"
    using p by (simp only: divide_le_cancel) simp
  moreover have "(of_int (h * 2 ^ j) :: rat) / 2 ^ (n + j) = of_int h / 2 ^ n"
    by (simp add: power_add)
  ultimately have H: "nearest_double x \<le> of_int h / 2 ^ n" unfolding nd by simp
  from L H show ?thesis ..
qed

lemma random_bounds: "0 \<le> random r" "random r < 1"
proof -
  show "0 \<le> random r" by (simp add: random_def)
  have "r mod 2 ^ 53 < 2 ^ 53" by simp
  then have "(of_nat (r mod 2 ^ 53) :: rat) < of_nat (2 ^ 53)" by (simp only: of_nat_less_iff)
  then show "random r < 1" by (simp add: random_def)
qed

lemma uniform_offset:
  "0 \<le> nearest_double (2 * random r) \<and> nearest_double (2 * random r) \<le> 2"
proof -
  have "of_int 0 / 2 ^ 0 \<le> nearest_double (2 * random r)
      \<and> nearest_double (2 * random r) \<le> of_int 2 / 2 ^ 0"
    using random_bounds [of r] by (intro nearest_double_bounds [where k = 2]) simp_all
  then show ?thesis by simp
qed

lemma uniform_lat_bounds: "4 \<le> uniform 4 6 r \<and> uniform 4 6 r \<le> 6"
proof -
  let ?z = "nearest_double (2 * random r)"
  have u: "uniform 4 6 r = nearest_double (4 + ?z)"
    by (simp add: uniform_def nearest_double_2)
  have "of_int 4 / 2 ^ 0 \<le> nearest_double (4 + ?z) \<and> nearest_double (4 + ?z) \<le> of_int 6 / 2 ^ 0"
    using uniform_offset [of r] by (intro nearest_double_bounds [where k = 3]) simp_all
  then show ?thesis unfolding u by simp
qed

lemma uniform_lon_bounds:
  "- 75.5 \<le> uniform (- 75.5) (- 73.5) r \<and> uniform (- 75.5) (- 73.5) r \<le> - 73.5"
proof -
  let ?z = "nearest_double (2 * random r)"
  have u: "uniform (- 75.5) (- 73.5) r = nearest_double (- 75.5 + ?z)"
    by (simp add: uniform_def nearest_double_2)
  have "of_int (- 151) / 2 ^ 1 \<le> nearest_double (- 75.5 + ?z)
      \<and> nearest_double (- 75.5 + ?z) \<le> of_int (- 147) / 2 ^ 1"
    using uniform_offset [of r] by (intro nearest_double_bounds [where k = 7]) simp_all
  then show ?thesis unfolding u by simp
qed

lemma round_ndigits_bounds:
  assumes "of_int l / 10 ^ nd \<le> x" "x \<le> of_int h / 10 ^ nd"
  shows "\<exists>k. round_ndigits x nd = nearest_double (of_int k / 10 ^ nd) \<and> l \<le> k \<and> k \<le> h"
proof -
  obtain a b where q: "quotient_of (x * 10 ^ nd) = (a, b)" by (cases "quotient_of (x * 10 ^ nd)")
  have b: "0 < b" using q by (rule quotient_of_denom_pos)
  have x: "x * 10 ^ nd = of_int a / of_int b" using q by (rule quotient_of_div)
  have "of_int l \<le> x * 10 ^ nd" using assms(1) by (simp add: field_simps)
  then have "(of_int l * of_int b :: rat) \<le> of_int a" using b unfolding x by (simp add: field_simps)
  then have "(of_int (l * b) :: rat) \<le> of_int a" by simp
  then have "l * b \<le> a" by (simp only: of_int_le_iff)
  then have L: "l \<le> divide_and_round a b" using b by (intro divide_and_round_lower)
  have "x * 10 ^ nd \<le> of_int h" using assms(2) by (simp add: field_simps)
  then have "(of_int a :: rat) \<le> of_int h * of_int b" using b unfolding x by (simp add: field_simps)
  then have "(of_int a :: rat) \<le> of_int (h * b)" by simp
  then have "a \<le> h * b" by (simp only: of_int_le_iff)
  then have H: "divide_and_round a b \<le> h" using b by (intro divide_and_round_upper)
  have "round_ndigits x nd = nearest_double (of_int (divide_and_round a b) / 10 ^ nd)"
    by (simp add: round_ndigits_def q)
  with L H show ?thesis by blast
qed

lemma gps_lat_range:
  "\<exists>k. round_ndigits (uniform 4 6 r) 6 = nearest_double (of_int k / 10 ^ 6)
       \<and> 4000000 \<le> k \<and> k \<le> 6000000
       \<and> 4 \<le> round_ndigits (uniform 4 6 r) 6 \<and> round_ndigits (uniform 4 6 r) 6 \<le> 6"
proof -
  have "\<exists>k. round_ndigits (uniform 4 6 r) 6 = nearest_double (of_int k / 10 ^ 6)
       \<and> 4000000 \<le> k \<and> k \<le> 6000000"
    using uniform_lat_bounds [of r] by (intro round_ndigits_bounds) simp_all
  then obtain k where k: "round_ndigits (uniform 4 6 r) 6 = nearest_double (of_int k / 10 ^ 6)"
    and b: "4000000 \<le> k" "k \<le> 6000000" by blast
  have r: "(4::rat) \<le> of_int k / 10 ^ 6" "of_int k / 10 ^ 6 \<le> (6::rat)"
    using b by (simp_all add: field_simps)
  have "of_int 4 / 2 ^ 0 \<le> nearest_double (of_int k / 10 ^ 6)
      \<and> nearest_double (of_int k / 10 ^ 6) \<le> of_int 6 / 2 ^ 0"
    using r by (intro nearest_double_bounds [where k = 3]) simp_all
  with k b show ?thesis by auto
qed

lemma gps_lon_range:
  "\<exists>k. round_ndigits (uniform (- 75.5) (- 73.5) r) 6 = nearest_double (of_int k / 10 ^ 6)
       \<and> - 75500000 \<le> k \<and> k \<le> - 73500000
       \<and> - 75.5 \<le> round_ndigits (uniform (- 75.5) (- 73.5) r) 6
       \<and> round_ndigits (uniform (- 75.5) (- 73.5) r) 6 \<le> - 73.5"
proof -
  have "\<exists>k. round_ndigits (uniform (- 75.5) (- 73.5) r) 6 = nearest_double (of_int k / 10 ^ 6)
       \<and> - 75500000 \<le> k \<and> k \<le> - 73500000"
    using uniform_lon_bounds [of r] by (intro round_ndigits_bounds) simp_all
  then obtain k where
    k: "round_ndigits (uniform (- 75.5) (- 73.5) r) 6 = nearest_double (of_int k / 10 ^ 6)"
    and b: "- 75500000 \<le> k" "k \<le> - 73500000" by blast
  have r: "(- 75.5::rat) \<le> of_int k / 10 ^ 6" "of_int k / 10 ^ 6 \<le> (- 73.5::rat)"
    using b by (simp_all add: field_simps)
  have "of_int (- 151) / 2 ^ 1 \<le> nearest_double (of_int k / 10 ^ 6)
      \<and> nearest_double (of_int k / 10 ^ 6) \<le> of_int (- 147) / 2 ^ 1"
    using r by (intro nearest_double_bounds [where k = 7]) simp_all
  with k b show ?thesis by auto
qed

section \<open>The fields of a simulated mission\<close>

lemma random_le_1: "timedelta_mul td (random r) \<le> td"
proof -
  let ?k = "int (r mod 2 ^ 53)"
  have k: "0 \<le> ?k" "?k < 2 ^ 53" by simp_all
  have "int td * ?k \<le> int td * 2 ^ 53"
    using k(2) by (intro mult_left_mono) simp_all
  then have "divide_and_round (int td * ?k) (2 ^ 53) \<le> int td"
    by (intro divide_and_round_upper) simp_all
  then show ?thesis
    unfolding random_ratio by (subst timedelta_mul_ratio) simp_all
qed

lemma randint_range: "a \<le> b \<Longrightarrow> a \<le> randint a b r \<and> randint a b r \<le> b"
proof -
  assume "a \<le> b"
  then have "0 < nat (b - a + 1)" by simp
  then have "r mod nat (b - a + 1) < nat (b - a + 1)" by (rule mod_less_divisor)
  then show ?thesis by (simp add: randint_def)
qed

lemma choice_mem: "seq \<noteq> [] \<Longrightarrow> choice seq r \<in> set seq"
  by (simp add: choice_def)

lemma pad2_digits:
  assumes "n < 100"
  shows "pad2 n = [char_of (48 + n div 10), char_of (48 + n mod 10)]"
proof (cases "n < 10")
  case True
  then show ?thesis
    by (simp add: pad2_def zfill_def str_nat_small digit_chars(1))
next
  case False
  have d: "n div 10 < 10" using assms by simp
  show ?thesis
    by (simp add: pad2_def zfill_def str_nat_big [OF False] str_nat_small [OF d])
qed

lemma digit_less:
  assumes "a < 10" "b < 10"
  shows "((char_of (48 + a) :: char) < char_of (48 + b)) = (a < (b::nat))"
proof -
  have "(48 + a) mod 256 = 48 + a" "(48 + b) mod 256 = 48 + b"
    using assms by simp_all
  then show ?thesis by (simp only: less_char_def of_char_of) simp
qed

lemma digit_eq:
  assumes "a < 10" "b < 10"
  shows "((char_of (48 + a) :: char) = char_of (48 + b)) = (a = (b::nat))"
  using digit_inj [OF _ assms] by blast

lemma two_digit_less:
  assumes "ra < 10" "rb < (10::nat)"
  shows "(qa < qb \<or> qa = qb \<and> ra < rb) = (10 * qa + ra < 10 * qb + rb)"
  using assms by auto

lemma two_digit_eq:
  assumes "ra < 10" "rb < (10::nat)"
  shows "(qa = qb \<and> ra = rb) = (10 * qa + ra = 10 * qb + rb)"
  using assms by presburger

lemma pad2_less:
  assumes "a < 100" "b < 100"
  shows "(pad2 a < pad2 b) = (a < b)"
proof -
  have d: "a div 10 < 10" "a mod 10 < 10" "b div 10 < 10" "b mod 10 < 10"
    using assms by simp_all
  have "(pad2 a < pad2 b) =
      (char_of (48 + a div 10) < (char_of (48 + b div 10) :: char)
       \<or> (char_of (48 + a div 10) :: char) = char_of (48 + b div 10)
         \<and> [char_of (48 + a mod 10) :: char] < [char_of (48 + b mod 10)])"
    unfolding pad2_digits [OF assms(1)] pad2_digits [OF assms(2)] by (rule Cons_less_Cons)
  also have "([char_of (48 + a mod 10) :: char] < [char_of (48 + b mod 10)])
      = (char_of (48 + a mod 10) < (char_of (48 + b mod 10) :: char))"
    by (simp only: Cons_less_Cons less_list_code(1) simp_thms)
  finally have "(pad2 a < pad2 b) =
      (a div 10 < b div 10 \<or> a div 10 = b div 10 \<and> a mod 10 < b mod 10)"
    by (simp only: digit_less [OF d(1) d(3)] digit_less [OF d(2) d(4)] digit_eq [OF d(1) d(3)])
  also have "\<dots> = (10 * (a div 10) + a mod 10 < 10 * (b div 10) + b mod 10)"
    using d(2) d(4) by (rule two_digit_less)
  also have "\<dots> = (a < b)" by simp
  finally show ?thesis .
qed

lemma pad2_eq:
  assumes "a < 100" "b < 100"
  shows "(pad2 a = pad2 b) = (a = b)"
proof -
  have d: "a div 10 < 10" "a mod 10 < 10" "b div 10 < 10" "b mod 10 < 10"
    using assms by simp_all
  have "(pad2 a = pad2 b) = (a div 10 = b div 10 \<and> a mod 10 = b mod 10)"
    by (simp only: pad2_digits [OF assms(1)] pad2_digits [OF assms(2)] list.inject
          digit_eq [OF d(1) d(3)] digit_eq [OF d(2) d(4)] simp_thms)
  also have "\<dots> = (10 * (a div 10) + a mod 10 = 10 * (b div 10) + b mod 10)"
    using d(2) d(4) by (rule two_digit_eq)
  also have "\<dots> = (a = b)" by simp
  finally show ?thesis .
qed

lemma pad2_length: "n < 100 \<Longrightarrow> length (pad2 n) = 2"
  by (simp only: pad2_digits) simp

lemma month_day_fst_ge: "m \<le> fst (month_day ls m d)"
proof (induction ls arbitrary: m d)
  case Nil
  show ?case by simp
next
  case (Cons l ls)
  from Cons [of "m + 1" "d - l"] show ?case by simp
qed

lemma month_day_mono:
  "d1 < d2 \<Longrightarrow>
     fst (month_day ls m d1) < fst (month_day ls m d2)
     \<or> fst (month_day ls m d1) = fst (month_day ls m d2)
       \<and> snd (month_day ls m d1) < snd (month_day ls m d2)"
proof (induction ls arbitrary: m d1 d2)
  case Nil
  then show ?case by simp
next
  case (Cons l ls)
  show ?case
  proof (cases "d2 < l")
    case True
    with Cons.prems show ?thesis by simp
  next
    case d2: False
    show ?thesis
    proof (cases "d1 < l")
      case True
      with d2 month_day_fst_ge [of "m + 1" ls "d2 - l"] show ?thesis by simp
    next
      case False
      with d2 Cons.prems have "d1 - l < d2 - l" by simp
      from Cons.IH [OF this, of "m + 1"] d2 False show ?thesis by simp
    qed
  qed
qed

lemma month_day_bounds:
  "d < sum_list ls \<Longrightarrow> \<forall>l\<in>set ls. l \<le> 31 \<Longrightarrow>
     fst (month_day ls m d) < m + length ls
     \<and> 1 \<le> snd (month_day ls m d) \<and> snd (month_day ls m d) \<le> 31"
proof (induction ls arbitrary: m d)
  case Nil
  then show ?case by simp
next
  case (Cons l ls)
  show ?case
  proof (cases "d < l")
    case True
    with Cons.prems show ?thesis by simp
  next
    case False
    with Cons.prems have "d - l < sum_list ls" "\<forall>l\<in>set ls. l \<le> 31" by simp_all
    from Cons.IH [OF this, of "m + 1"] False show ?thesis by simp
  qed
qed

lemma lex_block:
  "length a = length b \<Longrightarrow> (a @ x < b @ y) = (a < b \<or> a = b \<and> x < (y :: char list))"
proof (induction a b rule: list_induct2)
  case Nil
  show ?case by simp
next
  case (Cons c cs d ds)
  show ?case
    by (simp only: append_Cons Cons_less_Cons Cons list.inject) blast
qed

lemma year_of_2025: "d < 365 \<Longrightarrow> year_of 2025 d = (2025, d)"
  by (subst year_of.simps) (simp add: days_in_year_def is_leap_def)

lemma str_nat_2025: "zfill 4 (str_nat 2025) = ''2025''"
  by (simp add: zfill_def str_nat.simps digit_chars)

lemma isoformat_2025:
  assumes "s < 365 * 86400"
  shows "isoformat (s * 1000000) =
           ''2025-'' @ pad2 (fst (month_day (month_lengths 2025) 1 (s div 86400)))
           @ ''-'' @ pad2 (snd (month_day (month_lengths 2025) 1 (s div 86400)))
           @ ''T'' @ pad2 (s mod 86400 div 3600)
           @ '':'' @ pad2 (s mod 86400 div 60 mod 60)
           @ '':'' @ pad2 (s mod 86400 mod 60)"
proof -
  have d: "s * 1000000 div day_us = s div 86400"
    by (simp add: day_us_def)
  have "s * 1000000 mod (86400 * 1000000) = s mod 86400 * 1000000"
    by (metis mult.commute mult_mod_right)
  then have r: "s * 1000000 mod day_us div 1000000 = s mod 86400"
    unfolding day_us_def by (simp only: nonzero_mult_div_cancel_right)
  have u: "s * 1000000 mod 1000000 = 0" by simp
  have y: "year_of 2025 (s div 86400) = (2025, s div 86400)"
    using assms by (intro year_of_2025) simp
  show ?thesis
    unfolding isoformat_def d r u y
    by (simp add: Let_def split_beta str_nat_2025 pad2_def)
qed

lemma divmod_lex:
  assumes "a < (b::nat)"
  shows "a div n < b div n \<or> a div n = b div n \<and> a mod n < b mod n"
proof (cases "a div n = b div n")
  case True
  have "a = n * (a div n) + a mod n" "b = n * (b div n) + b mod n" by simp_all
  with True assms have "a mod n < b mod n" by (metis add_less_cancel_left)
  with True show ?thesis by simp
next
  case False
  moreover have "a div n \<le> b div n" using assms by (intro div_le_mono) simp
  ultimately show ?thesis by simp
qed

lemma pad2_block:
  assumes "a < 100" "b < 100"
  shows "(pad2 a @ x < pad2 b @ y) = (a < b \<or> a = b \<and> x < y)"
proof -
  have "length (pad2 a) = length (pad2 b)" using assms by (simp only: pad2_length)
  then have "(pad2 a @ x < pad2 b @ y) = (pad2 a < pad2 b \<or> pad2 a = pad2 b \<and> x < y)"
    by (rule lex_block)
  then show ?thesis by (simp only: pad2_less [OF assms] pad2_eq [OF assms])
qed

lemma sep_block: "((c # x) < (c # y)) = (x < (y :: char list))"
  by (simp only: Cons_less_Cons less_irrefl simp_thms)

lemma iso_shape_less:
  assumes "a1 < 100" "a2 < 100" "b1 < 100" "b2 < 100" "c1 < 100" "c2 < 100"
    "e1 < 100" "e2 < 100" "f1 < 100" "f2 < 100"
  shows "(''2025-'' @ pad2 a1 @ ''-'' @ pad2 b1 @ ''T'' @ pad2 c1 @ '':'' @ pad2 e1 @ '':'' @ pad2 f1
          < ''2025-'' @ pad2 a2 @ ''-'' @ pad2 b2 @ ''T'' @ pad2 c2 @ '':'' @ pad2 e2 @ '':'' @ pad2 f2)
       = (a1 < a2 \<or> a1 = a2 \<and> (b1 < b2 \<or> b1 = b2 \<and> (c1 < c2 \<or> c1 = c2 \<and>
            (e1 < e2 \<or> e1 = e2 \<and> f1 < f2))))"
  by (simp only: append_Cons append_Nil sep_block
        pad2_block [OF assms(1,2)] pad2_block [OF assms(3,4)] pad2_block [OF assms(5,6)]
        pad2_block [OF assms(7,8)] pad2_less [OF assms(9,10)])

lemma hms_bounds:
  "x mod 86400 div 3600 < (100::nat)" "y mod 60 < (100::nat)"
proof -
  have "x mod 86400 < 24 * 3600" by simp
  then have "x mod 86400 div 3600 < 24" by (rule less_mult_imp_div_less)
  then show "x mod 86400 div 3600 < 100" by simp
  have "y mod 60 < 60" by simp
  then show "y mod 60 < 100" by simp
qed

lemma month_lengths_2025:
  "sum_list (month_lengths 2025) = 365" "\<forall>l\<in>set (month_lengths 2025). l \<le> 31"
  "length (month_lengths 2025) = 12"
  by (simp_all add: month_lengths_def is_leap_def)

lemma isoformat_mono:
  assumes "s1 < s2" "s2 < 365 * 86400"
  shows "isoformat (s1 * 1000000) < isoformat (s2 * 1000000)"
proof -
  let ?md1 = "month_day (month_lengths 2025) 1 (s1 div 86400)"
  let ?md2 = "month_day (month_lengths 2025) 1 (s2 div 86400)"
  let ?c1 = "s1 mod 86400" and ?c2 = "s2 mod 86400"
  have s1: "s1 < 365 * 86400" using assms by simp
  have d: "s1 div 86400 < sum_list (month_lengths 2025)" "s2 div 86400 < sum_list (month_lengths 2025)"
    using assms by (simp_all add: month_lengths_2025(1))
  note b1 = month_day_bounds [OF d(1) month_lengths_2025(2), of 1]
  note b2 = month_day_bounds [OF d(2) month_lengths_2025(2), of 1]
  have m: "fst ?md1 < 100" "fst ?md2 < 100" "snd ?md1 < 100" "snd ?md2 < 100"
    using b1 b2 by (simp_all add: month_lengths_2025(3))
  have c: "?c1 div 3600 < 100" "?c2 div 3600 < 100" "?c1 div 60 mod 60 < 100"
    "?c2 div 60 mod 60 < 100" "?c1 mod 60 < 100" "?c2 mod 60 < 100"
    by (rule hms_bounds)+
  have h: "x div 3600 = x div 60 div 60" for x :: nat
    by (simp add: div_mult2_eq)
  have lexi: "fst ?md1 < fst ?md2 \<or> fst ?md1 = fst ?md2 \<and> (snd ?md1 < snd ?md2
      \<or> snd ?md1 = snd ?md2 \<and> (?c1 div 3600 < ?c2 div 3600 \<or> ?c1 div 3600 = ?c2 div 3600 \<and>
          (?c1 div 60 mod 60 < ?c2 div 60 mod 60 \<or> ?c1 div 60 mod 60 = ?c2 div 60 mod 60
             \<and> ?c1 mod 60 < ?c2 mod 60)))"
  proof -
    from divmod_lex [OF assms(1), of 86400] show ?thesis
    proof
      assume "s1 div 86400 < s2 div 86400"
      from month_day_mono [OF this, of "month_lengths 2025" 1] show ?thesis by blast
    next
      assume e: "s1 div 86400 = s2 div 86400 \<and> ?c1 < ?c2"
      then have same: "?md1 = ?md2" by simp
      from e divmod_lex [of ?c1 ?c2 60] have
        "?c1 div 60 < ?c2 div 60 \<or> ?c1 div 60 = ?c2 div 60 \<and> ?c1 mod 60 < ?c2 mod 60"
        by blast
      then have "?c1 div 3600 < ?c2 div 3600 \<or> ?c1 div 3600 = ?c2 div 3600 \<and>
          (?c1 div 60 mod 60 < ?c2 div 60 mod 60 \<or> ?c1 div 60 mod 60 = ?c2 div 60 mod 60
             \<and> ?c1 mod 60 < ?c2 mod 60)"
      proof
        assume "?c1 div 60 < ?c2 div 60"
        from divmod_lex [OF this, of 60] show ?thesis unfolding h by blast
      next
        assume "?c1 div 60 = ?c2 div 60 \<and> ?c1 mod 60 < ?c2 mod 60"
        then show ?thesis unfolding h by simp
      qed
      with same show ?thesis by simp
    qed
  qed
  show ?thesis
    unfolding isoformat_2025 [OF s1] isoformat_2025 [OF assms(2)]
      iso_shape_less [OF m(1,2,3,4) c]
    by (rule lexi)
qed

lemma new_mission_start_time:
  "map_of (new_mission n d) ''start_time''
     = Some (PyStr (isoformat (replace_microsecond0 (start_dt d)) @ ''Z''))"
  by (simp add: new_mission_def start_dt_def Let_def map_of_dict_set)

lemma new_mission_status:
  "map_of (new_mission n d) ''status'' = Some (PyStr (choice statuses (r_status d)))"
  by (simp add: new_mission_def statuses_def Let_def map_of_dict_set)

lemma new_mission_end_time:
  "map_of (new_mission n d) ''end_time'' =
     (if choice statuses (r_status d) = ''completed''
      then Some (PyStr (isoformat (replace_microsecond0
                          (start_dt d + timedelta_minutes (randint 1 180 (r_minutes d)))) @ ''Z''))
      else None)"
  by (simp add: new_mission_def start_dt_def statuses_def Let_def map_of_dict_set)

lemma new_mission_gps:
  "map_of (new_mission n d) ''gps_lat'' = Some (PyFloat (round_ndigits (uniform 4 6 (r_lat d)) 6))"
  "map_of (new_mission n d) ''gps_lon''
     = Some (PyFloat (round_ndigits (uniform (- 75.5) (- 73.5) (r_lon d)) 6))"
  by (simp_all add: new_mission_def Let_def map_of_dict_set)

lemma new_mission_progress:
  "map_of (new_mission n d) ''progress'' = Some (PyInt (randint 0 100 (r_progress d)))"
  by (simp add: new_mission_def Let_def map_of_dict_set)

lemma start_dt_le: "start_dt d \<le> 364 * day_us"
  unfolding start_dt_def datetime_2025_1_1 datetime_2025_12_31
  using random_le_1 [of "364 * day_us" "r_start d"] by simp

lemma replace_microsecond0_div: "replace_microsecond0 t = t div 1000000 * 1000000"
  by (simp add: replace_microsecond0_def minus_mod_eq_div_mult)

lemma start_seconds_le: "start_dt d div 1000000 \<le> 364 * 86400"
proof -
  have "start_dt d div 1000000 \<le> 364 * day_us div 1000000"
    using start_dt_le by (rule div_le_mono)
  then show ?thesis by (simp add: day_us_def)
qed

lemma end_seconds:
  assumes "1 \<le> k" "k \<le> 180"
  shows "(start_dt d + timedelta_minutes k) div 1000000 = start_dt d div 1000000 + nat k * 60"
    and "start_dt d div 1000000 < start_dt d div 1000000 + nat k * 60"
    and "start_dt d div 1000000 + nat k * 60 < 365 * 86400"
proof -
  have "start_dt d + timedelta_minutes k = start_dt d + nat k * 60 * 1000000"
    by (simp add: timedelta_minutes_def)
  then show "(start_dt d + timedelta_minutes k) div 1000000 = start_dt d div 1000000 + nat k * 60"
    by simp
  show "start_dt d div 1000000 < start_dt d div 1000000 + nat k * 60"
    using assms(1) by simp
  have "nat k * 60 \<le> 180 * 60" using assms(2) by simp
  with start_seconds_le [of d] show "start_dt d div 1000000 + nat k * 60 < 365 * 86400"
    by simp
qed

lemma iso_fields:
  assumes "s < 365 * 86400"
  shows "1 \<le> fst (month_day (month_lengths 2025) 1 (s div 86400))"
    and "fst (month_day (month_lengths 2025) 1 (s div 86400)) \<le> 12"
    and "1 \<le> snd (month_day (month_lengths 2025) 1 (s div 86400))"
    and "snd (month_day (month_lengths 2025) 1 (s div 86400)) \<le> 31"
    and "s mod 86400 div 3600 < 24"
    and "s mod 86400 div 60 mod 60 < 60"
    and "s mod 86400 mod 60 < 60"
proof -
  have d: "s div 86400 < sum_list (month_lengths 2025)"
    using assms by (simp add: month_lengths_2025(1))
  note b = month_day_bounds [OF d month_lengths_2025(2), of 1]
  show "1 \<le> fst (month_day (month_lengths 2025) 1 (s div 86400))"
    by (rule month_day_fst_ge)
  show "fst (month_day (month_lengths 2025) 1 (s div 86400)) \<le> 12"
    using b by (simp add: month_lengths_2025(3))
  show "1 \<le> snd (month_day (month_lengths 2025) 1 (s div 86400))"
    and "snd (month_day (month_lengths 2025) 1 (s div 86400)) \<le> 31"
    using b by simp_all
  have "s mod 86400 < 24 * 3600" by simp
  then show "s mod 86400 div 3600 < 24" by (rule less_mult_imp_div_less)
  show "s mod 86400 div 60 mod 60 < 60" "s mod 86400 mod 60 < 60" by simp_all
qed

lemma isoformat_length:
  assumes "s < 365 * 86400"
  shows "length (isoformat (s * 1000000)) = 19"
proof -
  note f = iso_fields [OF assms]
  have "fst (month_day (month_lengths 2025) 1 (s div 86400)) < 100"
    "snd (month_day (month_lengths 2025) 1 (s div 86400)) < 100"
    "s mod 86400 div 3600 < 100" "s mod 86400 div 60 mod 60 < 100" "s mod 86400 mod 60 < 100"
    using f by simp_all
  then show ?thesis
    unfolding isoformat_2025 [OF assms] by (simp add: pad2_length)
qed

lemma new_mission_end_iff:
  "(map_of (new_mission n d) ''end_time'' \<noteq> None)
     = (map_of (new_mission n d) ''status'' = Some (PyStr ''completed''))"
  by (simp add: new_mission_end_time new_mission_status)

lemma new_mission_end_after_start:
  assumes e: "map_of (new_mission n d) ''end_time'' = Some e"
  shows "\<exists>s t a b. map_of (new_mission n d) ''start_time'' = Some (PyStr s) \<and> e = PyStr t
        \<and> s = isoformat (a * 1000000) @ ''Z'' \<and> t = isoformat (b * 1000000) @ ''Z''
        \<and> a < b \<and> s < t"
proof -
  let ?k = "randint 1 180 (r_minutes d)"
  let ?a = "start_dt d div 1000000"
  let ?b = "?a + nat ?k * 60"
  have k: "1 \<le> ?k" "?k \<le> 180" using randint_range [of 1 180 "r_minutes d"] by simp_all
  note es = end_seconds [OF k, of d]
  have a: "?a < 365 * 86400" using es(2) es(3) by (rule less_trans)
  have t: "e = PyStr (isoformat (?b * 1000000) @ ''Z'')"
    using e unfolding new_mission_end_time replace_microsecond0_div es(1)
    by (simp split: if_splits)
  have s: "map_of (new_mission n d) ''start_time'' = Some (PyStr (isoformat (?a * 1000000) @ ''Z''))"
    unfolding new_mission_start_time replace_microsecond0_div ..
  have lt: "isoformat (?a * 1000000) < isoformat (?b * 1000000)"
    using es(2) es(3) by (rule isoformat_mono)
  have len: "length (isoformat (?a * 1000000)) = length (isoformat (?b * 1000000))"
    by (simp only: isoformat_length [OF a] isoformat_length [OF es(3)])
  have z: "isoformat (?a * 1000000) @ ''Z'' < isoformat (?b * 1000000) @ ''Z''"
    unfolding lex_block [OF len] using lt by (rule disjI1)
  show ?thesis
    by (intro exI [of _ "isoformat (?a * 1000000) @ ''Z''"]
              exI [of _ "isoformat (?b * 1000000) @ ''Z''"] exI [of _ ?a] exI [of _ ?b] conjI)
       (fact s t refl es(2) z)+
qed

lemma new_mission_start_shape:
  "\<exists>month day hh mm ss.
     map_of (new_mission n d) ''start_time''
       = Some (PyStr (''2025-'' @ pad2 month @ ''-'' @ pad2 day @ ''T'' @ pad2 hh @ '':''
                      @ pad2 mm @ '':'' @ pad2 ss @ ''Z''))
     \<and> 1 \<le> month \<and> month \<le> 12 \<and> 1 \<le> day \<and> day \<le> 31 \<and> hh < 24 \<and> mm < 60 \<and> ss < 60"
proof -
  let ?a = "start_dt d div 1000000"
  have a: "?a < 365 * 86400" using start_seconds_le [of d] by simp
  note f = iso_fields [OF a]
  have "map_of (new_mission n d) ''start_time''
      = Some (PyStr (''2025-'' @ pad2 (fst (month_day (month_lengths 2025) 1 (?a div 86400)))
           @ ''-'' @ pad2 (snd (month_day (month_lengths 2025) 1 (?a div 86400)))
           @ ''T'' @ pad2 (?a mod 86400 div 3600)
           @ '':'' @ pad2 (?a mod 86400 div 60 mod 60)
           @ '':'' @ pad2 (?a mod 86400 mod 60) @ ''Z''))"
    unfolding new_mission_start_time replace_microsecond0_div isoformat_2025 [OF a]
    by (simp only: append_assoc)
  with f show ?thesis by blast
qed

lemma new_mission_lat:
  "\<exists>y k. map_of (new_mission n d) ''gps_lat'' = Some (PyFloat y)
         \<and> y = nearest_double (of_int k / 10 ^ 6) \<and> 4 \<le> y \<and> y \<le> 6"
proof -
  from gps_lat_range [of "r_lat d"] obtain k where
    k: "round_ndigits (uniform 4 6 (r_lat d)) 6 = nearest_double (of_int k / 10 ^ 6)"
    and b: "4 \<le> round_ndigits (uniform 4 6 (r_lat d)) 6"
      "round_ndigits (uniform 4 6 (r_lat d)) 6 \<le> 6"
    by blast
  show ?thesis
    unfolding new_mission_gps(1)
    by (rule exI [of _ "round_ndigits (uniform 4 6 (r_lat d)) 6"], rule exI [of _ k])
       (intro conjI refl k b)
qed

lemma new_mission_lon:
  "\<exists>y k. map_of (new_mission n d) ''gps_lon'' = Some (PyFloat y)
         \<and> y = nearest_double (of_int k / 10 ^ 6) \<and> - 75.5 \<le> y \<and> y \<le> - 73.5"
proof -
  from gps_lon_range [of "r_lon d"] obtain k where
    k: "round_ndigits (uniform (- 75.5) (- 73.5) (r_lon d)) 6
          = nearest_double (of_int k / 10 ^ 6)"
    and b: "- 75.5 \<le> round_ndigits (uniform (- 75.5) (- 73.5) (r_lon d)) 6"
      "round_ndigits (uniform (- 75.5) (- 73.5) (r_lon d)) 6 \<le> - 73.5"
    by blast
  show ?thesis
    unfolding new_mission_gps(2)
    by (rule exI [of _ "round_ndigits (uniform (- 75.5) (- 73.5) (r_lon d)) 6"],
        rule exI [of _ k]) (intro conjI refl k b)
qed

lemma new_mission_choices:
  "\<exists>s. map_of (new_mission n d) ''status'' = Some (PyStr s)
       \<and> s \<in> {''pending'', ''processing'', ''completed''}"
  "\<exists>s. map_of (new_mission n d) ''sensor_type'' = Some (PyStr s)
       \<and> s \<in> {''thermal'', ''multispectral'', ''lidar''}"
proof -
  have "choice statuses (r_status d) \<in> set statuses"
    by (rule choice_mem) (simp add: statuses_def)
  then show "\<exists>s. map_of (new_mission n d) ''status'' = Some (PyStr s)
       \<and> s \<in> {''pending'', ''processing'', ''completed''}"
    unfolding new_mission_status by (simp add: statuses_def)
  have "choice mission_types (r_sensor d) \<in> set mission_types"
    by (rule choice_mem) (simp add: mission_types_def)
  then show "\<exists>s. map_of (new_mission n d) ''sensor_type'' = Some (PyStr s)
       \<and> s \<in> {''thermal'', ''multispectral'', ''lidar''}"
    unfolding new_mission_sensor_type(1) by (simp add: mission_types_def)
qed

lemma new_mission_progress_range:
  "\<exists>p. map_of (new_mission n d) ''progress'' = Some (PyInt p) \<and> 0 \<le> p \<and> p \<le> 100"
  unfolding new_mission_progress using randint_range [of 0 100 "r_progress d"] by simp

text \<open>
  Claim C7. Whatever the random calls return, every mission of the run that
  \<open>simulate_missions\<close> returns has: a \<open>start_time\<close> of the form
  \<open>2025-MM-DDTHH:MM:SSZ\<close>, two digits a field, with a month of 1 to 12, a day of 1 to 31, an
  hour below 24 and minute and second below 60 (so an instant of the year 2025, in whole
  seconds, in ISO-8601 form and ending in \<open>Z\<close>); a \<open>status\<close> among \<open>pending\<close>,
  \<open>processing\<close> and \<open>completed\<close>; a \<open>sensor_type\<close> among \<open>thermal\<close>, \<open>multispectral\<close> and
  \<open>lidar\<close>; a \<open>gps_lat\<close> in \<open>[4, 6]\<close> and a \<open>gps_lon\<close> in \<open>[-75.5, -73.5]\<close>, each the
  double nearest to a whole number of millionths, which is what \<^verbatim>\<open>round(x, 6)\<close> returns;
  and an integer \<open>progress\<close> in \<open>[0, 100]\<close>.
\<close>

theorem simulate_field_ranges:
  assumes "simulate_missions num user rnd now st = (run, st')"
  shows "\<exists>ms. map_of run ''missions'' = Some (PyList (map PyDict ms))
           \<and> length ms = nat num
           \<and> (\<forall>m\<in>set ms.
                (\<exists>month day hh mm ss.
                    map_of m ''start_time''
                      = Some (PyStr (''2025-'' @ pad2 month @ ''-'' @ pad2 day @ ''T'' @ pad2 hh
                                     @ '':'' @ pad2 mm @ '':'' @ pad2 ss @ ''Z''))
                    \<and> 1 \<le> month \<and> month \<le> 12 \<and> 1 \<le> day \<and> day \<le> 31
                    \<and> hh < 24 \<and> mm < 60 \<and> ss < 60)
              \<and> (\<exists>s. map_of m ''status'' = Some (PyStr s)
                     \<and> s \<in> {''pending'', ''processing'', ''completed''})
              \<and> (\<exists>s. map_of m ''sensor_type'' = Some (PyStr s)
                     \<and> s \<in> {''thermal'', ''multispectral'', ''lidar''})
              \<and> (\<exists>y k. map_of m ''gps_lat'' = Some (PyFloat y)
                     \<and> y = nearest_double (of_int k / 10 ^ 6) \<and> 4 \<le> y \<and> y \<le> 6)
              \<and> (\<exists>y k. map_of m ''gps_lon'' = Some (PyFloat y)
                     \<and> y = nearest_double (of_int k / 10 ^ 6) \<and> - 75.5 \<le> y \<and> y \<le> - 73.5)
              \<and> (\<exists>p. map_of m ''progress'' = Some (PyInt p) \<and> 0 \<le> p \<and> p \<le> 100))"
proof -
  from simulate_missions_run [OF assms] obtain ms where
    run: "map_of run ''missions'' = Some (PyList (map PyDict ms))" and
    len: "length ms = nat num" and
    mem: "\<forall>m\<in>set ms. \<exists>n j. m = new_mission n (rnd j)"
    by blast
  have "(\<exists>month day hh mm ss.
            map_of m ''start_time''
              = Some (PyStr (''2025-'' @ pad2 month @ ''-'' @ pad2 day @ ''T'' @ pad2 hh
                             @ '':'' @ pad2 mm @ '':'' @ pad2 ss @ ''Z''))
            \<and> 1 \<le> month \<and> month \<le> 12 \<and> 1 \<le> day \<and> day \<le> 31
            \<and> hh < 24 \<and> mm < 60 \<and> ss < 60)
      \<and> (\<exists>s. map_of m ''status'' = Some (PyStr s)
             \<and> s \<in> {''pending'', ''processing'', ''completed''})
      \<and> (\<exists>s. map_of m ''sensor_type'' = Some (PyStr s)
             \<and> s \<in> {''thermal'', ''multispectral'', ''lidar''})
      \<and> (\<exists>y k. map_of m ''gps_lat'' = Some (PyFloat y)
             \<and> y = nearest_double (of_int k / 10 ^ 6) \<and> 4 \<le> y \<and> y \<le> 6)
      \<and> (\<exists>y k. map_of m ''gps_lon'' = Some (PyFloat y)
             \<and> y = nearest_double (of_int k / 10 ^ 6) \<and> - 75.5 \<le> y \<and> y \<le> - 73.5)
      \<and> (\<exists>p. map_of m ''progress'' = Some (PyInt p) \<and> 0 \<le> p \<and> p \<le> 100)"
    if "m \<in> set ms" for m
  proof -
    from mem that obtain n j where m: "m = new_mission n (rnd j)" by blast
    show ?thesis
      unfolding m
      by (intro conjI new_mission_start_shape new_mission_choices new_mission_lat
            new_mission_lon new_mission_progress_range)
  qed
  with run len show ?thesis by blast
qed

theorem simulate_field_ranges_witness:
  "simulate_missions 1 [] (\<lambda>i. sample_draws) ''2026-01-01T00:00:00'' init_state
     = (sample_run, sample_state)
   \<and> (\<exists>ms. map_of sample_run ''missions'' = Some (PyList (map PyDict ms))
           \<and> length ms = nat 1
           \<and> (\<forall>m\<in>set ms.
                (\<exists>month day hh mm ss.
                    map_of m ''start_time''
                      = Some (PyStr (''2025-'' @ pad2 month @ ''-'' @ pad2 day @ ''T'' @ pad2 hh
                                     @ '':'' @ pad2 mm @ '':'' @ pad2 ss @ ''Z''))
                    \<and> 1 \<le> month \<and> month \<le> 12 \<and> 1 \<le> day \<and> day \<le> 31
                    \<and> hh < 24 \<and> mm < 60 \<and> ss < 60)
              \<and> (\<exists>s. map_of m ''status'' = Some (PyStr s)
                     \<and> s \<in> {''pending'', ''processing'', ''completed''})
              \<and> (\<exists>s. map_of m ''sensor_type'' = Some (PyStr s)
                     \<and> s \<in> {''thermal'', ''multispectral'', ''lidar''})
              \<and> (\<exists>y k. map_of m ''gps_lat'' = Some (PyFloat y)
                     \<and> y = nearest_double (of_int k / 10 ^ 6) \<and> 4 \<le> y \<and> y \<le> 6)
              \<and> (\<exists>y k. map_of m ''gps_lon'' = Some (PyFloat y)
                     \<and> y = nearest_double (of_int k / 10 ^ 6) \<and> - 75.5 \<le> y \<and> y \<le> - 73.5)
              \<and> (\<exists>p. map_of m ''progress'' = Some (PyInt p) \<and> 0 \<le> p \<and> p \<le> 100)))"
  using simulate_sample [of "[]"] simulate_field_ranges [OF simulate_sample [of "[]"]]
  by (rule conjI)

text \<open>
  Claim C3. Every mission of the run that \<open>simulate_missions\<close> returns has an \<open>end_time\<close>
  key exactly when its \<open>status\<close> is \<open>completed\<close>; then \<open>start_time\<close> and \<open>end_time\<close> are the
  renderings of two instants, in whole seconds since the start of 2025, of which the second
  is strictly later, and the two strings are in the same strict order lexicographically.
\<close>

theorem simulate_end_time:
  assumes "simulate_missions num user rnd now st = (run, st')"
  shows "\<exists>ms. map_of run ''missions'' = Some (PyList (map PyDict ms))
           \<and> length ms = nat num
           \<and> (\<forall>m\<in>set ms.
                ((map_of m ''end_time'' \<noteq> None)
                   = (map_of m ''status'' = Some (PyStr ''completed'')))
              \<and> (\<forall>e. map_of m ''end_time'' = Some e \<longrightarrow>
                    (\<exists>s t a b. map_of m ''start_time'' = Some (PyStr s) \<and> e = PyStr t
                       \<and> s = isoformat (a * 1000000) @ ''Z''
                       \<and> t = isoformat (b * 1000000) @ ''Z''
                       \<and> a < b \<and> s < t)))"
proof -
  from simulate_missions_run [OF assms] obtain ms where
    run: "map_of run ''missions'' = Some (PyList (map PyDict ms))" and
    len: "length ms = nat num" and
    mem: "\<forall>m\<in>set ms. \<exists>n j. m = new_mission n (rnd j)"
    by blast
  have "((map_of m ''end_time'' \<noteq> None) = (map_of m ''status'' = Some (PyStr ''completed'')))
      \<and> (\<forall>e. map_of m ''end_time'' = Some e \<longrightarrow>
            (\<exists>s t a b. map_of m ''start_time'' = Some (PyStr s) \<and> e = PyStr t
               \<and> s = isoformat (a * 1000000) @ ''Z''
               \<and> t = isoformat (b * 1000000) @ ''Z''
               \<and> a < b \<and> s < t))"
    if "m \<in> set ms" for m
  proof -
    from mem that obtain n j where m: "m = new_mission n (rnd j)" by blast
    show ?thesis
      unfolding m using new_mission_end_iff [of n "rnd j"] new_mission_end_after_start [of n "rnd j"]
      by blast
  qed
  with run len show ?thesis by blast
qed

theorem simulate_end_time_witness:
  "simulate_missions 1 [] (\<lambda>i. sample_draws) ''2026-01-01T00:00:00'' init_state
     = (sample_run, sample_state)
   \<and> map_of sample_mission ''status'' = Some (PyStr ''completed'')
   \<and> map_of sample_mission ''start_time'' = Some (PyStr ''2025-05-02T05:40:21Z'')
   \<and> map_of sample_mission ''end_time'' = Some (PyStr ''2025-05-02T06:25:21Z'')
   \<and> (\<exists>ms. map_of sample_run ''missions'' = Some (PyList (map PyDict ms))
           \<and> length ms = nat 1
           \<and> (\<forall>m\<in>set ms.
                ((map_of m ''end_time'' \<noteq> None)
                   = (map_of m ''status'' = Some (PyStr ''completed'')))
              \<and> (\<forall>e. map_of m ''end_time'' = Some e \<longrightarrow>
                    (\<exists>s t a b. map_of m ''start_time'' = Some (PyStr s) \<and> e = PyStr t
                       \<and> s = isoformat (a * 1000000) @ ''Z''
                       \<and> t = isoformat (b * 1000000) @ ''Z''
                       \<and> a < b \<and> s < t))))"
proof -
  have f: "map_of sample_mission ''status'' = Some (PyStr ''completed'')"
    "map_of sample_mission ''start_time'' = Some (PyStr ''2025-05-02T05:40:21Z'')"
    "map_of sample_mission ''end_time'' = Some (PyStr ''2025-05-02T06:25:21Z'')"
    by (simp_all add: sample_mission_def)
  show ?thesis
    by (intro conjI) (fact simulate_sample [of "[]"] f simulate_end_time [OF simulate_sample [of "[]"]])+
qed

end
